theory Spec2Isabelle
  imports Complex_Main "HOL-Library.Signed_Division" "HOL-Library.Sublist" "HOL-Library.Log_Nat"
begin

section \<open>Data model of wasserstein/EMD.hh\<close>

text \<open>
  The embedding follows \<^verbatim>\<open>src/wasserstein/EMD.hh\<close>: the single-pair solver
  \<^verbatim>\<open>_EMD\<close> and the batch engine \<^verbatim>\<open>PairwiseEMD\<close>.

  \<^item> The template parameter \<^verbatim>\<open>Value\<close> (double or float in the source) is carried by
    the reals. The arithmetic of \<^verbatim>\<open>_EMD::compute\<close> takes the rounding of the floating-point
    type as a parameter \<open>rnd\<close>, applied to the exact result of every operation that
    rounds; \<open>binary64\<close> is the rounding of \<^verbatim>\<open>double\<close>, and the identity gives exact
    arithmetic. The product in the flow lookup and the product of two event weights
    are exact. Infinities and NaN are not modelled, and a quotient by a zero scale
    lies outside the idealisation.
  \<^item> \<^verbatim>\<open>index_type\<close> is a signed integer in the source; it is an unbounded \<open>int\<close>
    here, and \<^verbatim>\<open>/\<close>, \<^verbatim>\<open>%\<close> on it are the truncating \<open>sdiv\<close>, \<open>smod\<close>.
  \<^item> The classes of \<^verbatim>\<open>internal/\<close> (Event, EMDBase, NetworkSimplex, PairwiseDistance,
    ExternalEMDHandler) are not part of the sources at hand. Their data members are
    record fields, and their algorithms (the transport solver, the ground distance
    provider) are parameters of the functions that call them.
  \<^item> A C++ exception is a value \<open>Inl e\<close> of a sum type. An unchecked access outside a
    \<^verbatim>\<open>std::vector\<close> or through a null pointer is undefined behaviour in the source and
    the distinguished failure \<open>UndefinedBehaviour\<close> here.
  \<^item> Wall-clock timing and progress printing are left out.
  \<^item> A data member \<^verbatim>\<open>x_\<close> of the source is the record field \<open>x_m\<close>: a name
    cannot end in an underscore here.
\<close>

type_synonym Value = real
type_synonym index_type = int

subsection \<open>Rounding\<close>

text \<open>
  IEEE 754 arithmetic returns the exact result rounded to the nearest representable
  value, ties going to the neighbour with an even significand. \<open>round_to_even\<close> is this
  rounding to an integer, \<open>binary_exponent y\<close> is the exponent \<open>e\<close> of a positive \<open>y\<close>, that
  is \<open>2^e \<le> y < 2^(e+1)\<close>, and \<open>binary64\<close> rounds to 53 significant bits, as
  \<^verbatim>\<open>double\<close> does. The exponent range is not bounded here: there is no overflow and there
  are no subnormal values. Comparisons, \<^verbatim>\<open>std::max\<close> and the unary minus are exact.
\<close>

definition round_to_even :: "real \<Rightarrow> int" where
  "round_to_even q =
    (let n = \<lfloor>q\<rfloor>; r = q - of_int n
     in if r < 1 / 2 \<or> (r = 1 / 2 \<and> even n) then n else n + 1)"

definition binary_exponent :: "real \<Rightarrow> int" where
  "binary_exponent y =
    (if 1 \<le> y then bitlen \<lfloor>y\<rfloor> - 1
     else let f = bitlen \<lfloor>1 / y\<rfloor> - 1
          in if 1 / y = 2 ^ nat f then - f else - f - 1)"

definition binary64 :: "real \<Rightarrow> real" where
  "binary64 x =
    (if x = 0 then 0
     else let e = binary_exponent \<bar>x\<bar> - 52
          in of_int (round_to_even (x * power_int 2 (- e))) * power_int 2 e)"


subsection \<open>Types\<close>

datatype EMDStatus = Success | Empty | SupplyMismatch | Unbounded | MaxIterReached | Infeasible

datatype ExtraParticle = Neither | Zero | One

datatype EMDPairsStorage = Full | FullSymmetric | FlattenedSymmetric | External

datatype exn =
    OutOfRange string
  | LogicError string
  | RuntimeError string
  | InvalidArgument string
  | StatusError EMDStatus
  | LengthError
  | UndefinedBehaviour

text \<open>
  Modelled from the spec: \<^verbatim>\<open>internal/Event.hh\<close> is missing. An event exposes a weight
  sequence, a point sequence, a total weight and a scalar event weight.
\<close>

record 'p Event =
  weights :: "Value list"
  particles :: "'p list"
  total_weight :: Value
  event_weight :: Value

text \<open>
  Modelled from the spec: the total weight of an event is the sum of its weights.
\<close>

definition total_is_sum :: "'p Event \<Rightarrow> bool" where
  "total_is_sum ev = (total_weight ev = sum_list (weights ev))"

text \<open>
  Modelled from the spec: \<^verbatim>\<open>internal/NetworkSimplex.hh\<close> is missing. The solver keeps
  a weight buffer (supplies, then demands, then one more slot), a distance buffer, a
  flow buffer (row-major) and the total cost of its last run, besides its parameters.
\<close>

record NetworkSimplex =
  n_iter_max_m :: nat
  epsilon_large_factor_m :: Value
  epsilon_small_factor_m :: Value
  weights_m :: "Value list"
  dists_m :: "Value list"
  flows_m :: "Value list"
  total_cost_m :: Value

record PairwiseDistance =
  R_m :: Value
  beta_m :: Value

text \<open>The members of \<^verbatim>\<open>EMDBase\<close> and of \<^verbatim>\<open>_EMD\<close>.\<close>

record EMD =
  norm_m :: bool
  do_timing_m :: bool
  external_dists_m :: bool
  n0_m :: index_type
  n1_m :: index_type
  extra_m :: ExtraParticle
  weightdiff_m :: Value
  scale_m :: Value
  emd_m :: Value
  status_m :: EMDStatus
  pairwise_distance_m :: PairwiseDistance
  network_simplex_m :: NetworkSimplex

text \<open>The external algorithms: \<^verbatim>\<open>PairwiseDistance::fill_distances\<close> returns the new
  distance buffer, \<^verbatim>\<open>NetworkSimplex::compute\<close> a status and the solver's new state.\<close>

type_synonym 'p fill_distances =
  "PairwiseDistance \<Rightarrow> 'p list \<Rightarrow> 'p list \<Rightarrow> Value list \<Rightarrow> ExtraParticle \<Rightarrow> Value list"

type_synonym ns_compute =
  "NetworkSimplex \<Rightarrow> index_type \<Rightarrow> index_type \<Rightarrow> EMDStatus \<times> NetworkSimplex"

section \<open>The single-pair solver \<^verbatim>\<open>_EMD\<close>\<close>

subsection \<open>Constructor\<close>

text \<open>
  Modelled from the spec: \<^verbatim>\<open>EMDBase::set_external_dists\<close> is missing; it is the setter
  of the flag.
\<close>

definition set_external_dists :: "bool \<Rightarrow> EMD \<Rightarrow> EMD" where
  "set_external_dists b s = s\<lparr>external_dists_m := b\<rparr>"

text \<open>
  The constructor (lines 120-138). \<open>raw\<close> is the object before construction: members
  that the constructor does not mention keep what \<open>raw\<close> holds. \<open>is_default\<close> is the
  compile-time constant
  \<^verbatim>\<open>std::is_same<PairwiseDistance, DefaultPairwiseDistance<Value>>::value\<close>.
\<close>

definition EMD_ctor ::
  "EMD \<Rightarrow> bool \<Rightarrow> Value \<Rightarrow> Value \<Rightarrow> bool \<Rightarrow> bool \<Rightarrow> bool \<Rightarrow> nat \<Rightarrow> Value \<Rightarrow> Value \<Rightarrow> EMD" where
  "EMD_ctor raw is_default R beta norm' do_timing external_dists
      n_iter_max epsilon_large_factor epsilon_small_factor =
    (let s0 = raw\<lparr>norm_m := norm', do_timing_m := do_timing, external_dists_m := external_dists\<rparr>;
         s1 = s0\<lparr>pairwise_distance_m := \<lparr>R_m = R, beta_m = beta\<rparr>\<rparr>;
         s2 = s1\<lparr>network_simplex_m := (network_simplex_m s1)
                 \<lparr>n_iter_max_m := n_iter_max,
                  epsilon_large_factor_m := epsilon_large_factor,
                  epsilon_small_factor_m := epsilon_small_factor\<rparr>\<rparr>;
         s3 = s2\<lparr>scale_m := 1\<rparr>
     in set_external_dists is_default s3)"

subsection \<open>compute\<close>

text \<open>\<^verbatim>\<open>std::vector::resize\<close>: elements are kept up to the new size, new ones are zero.\<close>

definition resize :: "nat \<Rightarrow> Value list \<Rightarrow> Value list" where
  "resize n xs = take n xs @ replicate (n - length xs) 0"

text \<open>\<^verbatim>\<open>std::copy(src.begin(), src.end(), dst.begin() + pos)\<close>.\<close>

definition copy :: "Value list \<Rightarrow> nat \<Rightarrow> Value list \<Rightarrow> Value list" where
  "copy src pos dst = take pos dst @ src @ drop (pos + length src) dst"

definition set_weights :: "Value list \<Rightarrow> EMD \<Rightarrow> EMD" where
  "set_weights w s = s\<lparr>network_simplex_m := (network_simplex_m s)\<lparr>weights_m := w\<rparr>\<rparr>"

text \<open>Lines 227-259: particle counts, weight difference and the fictitious particle.
  The subtraction at line 232 rounds.\<close>

definition compute_balance_rnd ::
  "(Value \<Rightarrow> Value) \<Rightarrow> EMD \<Rightarrow> 'p Event \<Rightarrow> 'p Event \<Rightarrow> EMD" where
  "compute_balance_rnd rnd s ev0 ev1 =
    (let ws0 = weights ev0; ws1 = weights ev1;
         s1 = s\<lparr>n0_m := int (length ws0), n1_m := int (length ws1),
                weightdiff_m := rnd (total_weight ev1 - total_weight ev0)\<rparr>;
         w = weights_m (network_simplex_m s1)
     in if norm_m s1 \<or> external_dists_m s1 \<or> weightdiff_m s1 = 0 then
          let s2 = s1\<lparr>extra_m := Neither\<rparr>;
              w1 = resize (nat (n0_m s2 + n1_m s2 + 1)) w
          in set_weights (copy ws1 (length ws0) (copy ws0 0 w1)) s2
        else if weightdiff_m s1 > 0 then
          let s2 = s1\<lparr>extra_m := Zero, n0_m := n0_m s1 + 1\<rparr>;
              w1 = resize (nat (n0_m s2 + n1_m s2 + 1)) w;
              w2 = (copy ws0 0 w1)[length ws0 := weightdiff_m s2]
          in set_weights (copy ws1 (length ws0 + 1) w2) s2
        else
          let s2 = s1\<lparr>extra_m := One, n1_m := n1_m s1 + 1\<rparr>;
              w1 = resize (nat (n0_m s2 + n1_m s2 + 1)) w;
              w2 = copy ws1 (length ws0) (copy ws0 0 w1)
          in set_weights (w2[length ws0 + length ws1 := - weightdiff_m s2]) s2)"

text \<open>Lines 261-265: unless normed, every weight is divided by the larger total. Each
  division rounds.\<close>

definition compute_scale_rnd ::
  "(Value \<Rightarrow> Value) \<Rightarrow> EMD \<Rightarrow> 'p Event \<Rightarrow> 'p Event \<Rightarrow> EMD" where
  "compute_scale_rnd rnd s ev0 ev1 =
    (if \<not> norm_m s then
       let s1 = s\<lparr>scale_m := max (total_weight ev0) (total_weight ev1)\<rparr>
       in set_weights (map (\<lambda>w. rnd (w / scale_m s1)) (weights_m (network_simplex_m s1))) s1
     else s)"

text \<open>Lines 267-269: the ground distances, unless they are provided externally.\<close>

definition compute_dists :: "'p fill_distances \<Rightarrow> EMD \<Rightarrow> 'p Event \<Rightarrow> 'p Event \<Rightarrow> EMD" where
  "compute_dists fill s ev0 ev1 =
    (if \<not> external_dists_m s then
       s\<lparr>network_simplex_m := (network_simplex_m s)
           \<lparr>dists_m := fill (pairwise_distance_m s) (particles ev0) (particles ev1)
                        (dists_m (network_simplex_m s)) (extra_m s)\<rparr>\<rparr>
     else s)"

text \<open>Lines 271-277: the solver runs; its cost is rescaled on success, unless normed.
  The multiplication rounds.\<close>

definition compute_solve_rnd :: "(Value \<Rightarrow> Value) \<Rightarrow> ns_compute \<Rightarrow> EMD \<Rightarrow> EMD" where
  "compute_solve_rnd rnd solve s =
    (let (st, ns) = solve (network_simplex_m s) (n0_m s) (n1_m s);
         s1 = s\<lparr>network_simplex_m := ns, status_m := st\<rparr>;
         s2 = s1\<lparr>emd_m := total_cost_m (network_simplex_m s1)\<rparr>
     in if status_m s2 = Success \<and> \<not> norm_m s2
        then s2\<lparr>emd_m := rnd (emd_m s2 * scale_m s2)\<rparr> else s2)"

text \<open>\<^verbatim>\<open>_EMD::compute\<close> (lines 220-285) under the rounding \<open>rnd\<close>; the status returned is
  \<open>status_\<close> of the result.\<close>

definition compute_rnd ::
  "(Value \<Rightarrow> Value) \<Rightarrow> 'p fill_distances \<Rightarrow> ns_compute \<Rightarrow> EMD \<Rightarrow> 'p Event \<Rightarrow> 'p Event
    \<Rightarrow> EMD" where
  "compute_rnd rnd fill solve s ev0 ev1 =
    compute_solve_rnd rnd solve
      (compute_dists fill
        (compute_scale_rnd rnd (compute_balance_rnd rnd s ev0 ev1) ev0 ev1) ev0 ev1)"

text \<open>The same in exact arithmetic, that is, at the identity rounding. The properties
  that say which operation is applied and where its result goes are stated on these,
  and the batch engine runs them.\<close>

definition compute_balance :: "EMD \<Rightarrow> 'p Event \<Rightarrow> 'p Event \<Rightarrow> EMD" where
  "compute_balance s ev0 ev1 = compute_balance_rnd (\<lambda>x. x) s ev0 ev1"

definition compute_scale :: "EMD \<Rightarrow> 'p Event \<Rightarrow> 'p Event \<Rightarrow> EMD" where
  "compute_scale s ev0 ev1 = compute_scale_rnd (\<lambda>x. x) s ev0 ev1"

definition compute_solve :: "ns_compute \<Rightarrow> EMD \<Rightarrow> EMD" where
  "compute_solve solve s = compute_solve_rnd (\<lambda>x. x) solve s"

definition compute :: "'p fill_distances \<Rightarrow> ns_compute \<Rightarrow> EMD \<Rightarrow> 'p Event \<Rightarrow> 'p Event \<Rightarrow> EMD" where
  "compute fill solve s ev0 ev1 =
    compute_solve solve
      (compute_dists fill (compute_scale (compute_balance s ev0 ev1) ev0 ev1) ev0 ev1)"

subsection \<open>Flow lookup\<close>

text \<open>The raw accessor (lines 321-323) indexes the solver's flow buffer unchecked.\<close>

definition flow_raw :: "nat \<Rightarrow> EMD \<Rightarrow> exn + Value" where
  "flow_raw ind s =
    (if ind < length (flows_m (network_simplex_m s))
     then Inr (flows_m (network_simplex_m s) ! ind * scale_m s)
     else Inl UndefinedBehaviour)"

text \<open>The checked accessor (lines 307-318).\<close>

definition flow :: "index_type \<Rightarrow> index_type \<Rightarrow> EMD \<Rightarrow> exn + Value" where
  "flow i j s =
    (let i = (if i < 0 then i + n0_m s else i);
         j = (if j < 0 then j + n1_m s else j)
     in if i \<ge> n0_m s \<or> j \<ge> n1_m s \<or> i < 0 \<or> j < 0
        then Inl (OutOfRange ''EMD::flow - Indices out of range'')
        else flow_raw (nat (i * n1_m s + j)) s)"

section \<open>The batch engine \<^verbatim>\<open>PairwiseEMD\<close>\<close>

text \<open>
  The data members of \<^verbatim>\<open>PairwiseEMD\<close> (lines 395-417), without the print stream.

  Modelled from the spec: \<^verbatim>\<open>ExternalEMDHandler\<close> is missing. A handler is a callable
  invoked with a distance and a weight product; here it is the sequence of the calls
  it has received so far, and \<open>None\<close> is the null pointer.

  The engine is modelled as the build without OpenMP runs it: one worker, thread
  index 0, the pairs of a chunk in increasing order of \<open>k\<close>.
\<close>

record 'p PairwiseEMD =
  num_threads_m :: int
  omp_dynamic_chunksize_m :: int
  emd_objs_m :: "EMD list"
  print_every_m :: index_type
  handler_m :: "(Value \<times> Value) list option"
  verbose_m :: nat
  store_sym_emds_flattened_m :: bool
  throw_on_error_m :: bool
  request_mode_m :: bool
  events_m :: "'p Event list"
  emds_m :: "Value list"
  full_emds_m :: "Value list"
  error_messages_m :: "string list"
  nevA_m :: index_type
  nevB_m :: index_type
  num_emds_m :: index_type
  emd_counter_m :: index_type
  emd_storage_m :: EMDPairsStorage
  two_event_sets_m :: bool

subsection \<open>Sequencing, unchecked vector access, decimal output\<close>

definition on_success :: "exn + 'a \<Rightarrow> ('a \<Rightarrow> exn + 'b) \<Rightarrow> exn + 'b" where
  "on_success m f = (case m of Inl e \<Rightarrow> Inl e | Inr x \<Rightarrow> f x)"

text \<open>\<^verbatim>\<open>v[i]\<close> on a \<^verbatim>\<open>std::vector\<close>: the index is converted to \<^verbatim>\<open>size_t\<close>, so a negative
  one is out of range as well.\<close>

definition vec_get :: "'a list \<Rightarrow> index_type \<Rightarrow> exn + 'a" where
  "vec_get xs i =
    (if 0 \<le> i \<and> i < int (length xs) then Inr (xs ! nat i) else Inl UndefinedBehaviour)"

definition vec_set :: "'a list \<Rightarrow> index_type \<Rightarrow> 'a \<Rightarrow> exn + 'a list" where
  "vec_set xs i v =
    (if 0 \<le> i \<and> i < int (length xs) then Inr (xs[nat i := v]) else Inl UndefinedBehaviour)"

text \<open>\<^verbatim>\<open>std::vector::reserve\<close> and \<^verbatim>\<open>std::vector::resize\<close> called with a signed count: the
  count is converted to \<^verbatim>\<open>size_t\<close>, so a negative one exceeds \<^verbatim>\<open>max_size()\<close> and the call
  raises \<^verbatim>\<open>std::length_error\<close>. Memory is unbounded here: a count that is not negative
  is granted. A reservation does not change the contents of the vector.\<close>

definition reserve :: "index_type \<Rightarrow> exn + unit" where
  "reserve n = (if n < 0 then Inl LengthError else Inr ())"

definition resize_to :: "index_type \<Rightarrow> Value list \<Rightarrow> exn + Value list" where
  "resize_to n xs = (if n < 0 then Inl LengthError else Inr (resize (nat n) xs))"

definition digit :: "nat \<Rightarrow> char" where
  "digit n = ''0123456789'' ! n"

function show_nat :: "nat \<Rightarrow> string" where
  "show_nat n = (if n < 10 then [digit n] else show_nat (n div 10) @ [digit (n mod 10)])"
  by pat_completeness auto
termination
  by (relation "measure id") auto

declare show_nat.simps [simp del]

definition show_int :: "int \<Rightarrow> string" where
  "show_int i = (if i < 0 then CHR ''-'' # show_nat (nat (- i)) else show_nat (nat i))"

text \<open>The numeric values of \<^verbatim>\<open>EMDStatus\<close>, as the comment at lines 213-219 lists them.\<close>

fun status_code :: "EMDStatus \<Rightarrow> int" where
  "status_code Success = 0"
| "status_code Empty = 1"
| "status_code SupplyMismatch = 2"
| "status_code Unbounded = 3"
| "status_code MaxIterReached = 4"
| "status_code Infeasible = 5"

subsection \<open>Accessors and batch lifecycle\<close>

definition have_external_emd_handler :: "'p PairwiseEMD \<Rightarrow> bool" where
  "have_external_emd_handler s = (handler_m s \<noteq> None)"

definition set_request_mode :: "bool \<Rightarrow> 'p PairwiseEMD \<Rightarrow> 'p PairwiseEMD" where
  "set_request_mode mode s = s\<lparr>request_mode_m := mode\<rparr>"

definition set_external_emd_handler ::
  "(Value \<times> Value) list \<Rightarrow> 'p PairwiseEMD \<Rightarrow> 'p PairwiseEMD" where
  "set_external_emd_handler handler s = s\<lparr>handler_m := Some handler\<rparr>"

text \<open>
  \<^verbatim>\<open>_EMD::clear\<close> (lines 191-194).
  Modelled from the spec: \<^verbatim>\<open>NetworkSimplex::free\<close> is missing; it releases the
  solver's internal buffers.
\<close>

definition EMD_clear :: "EMD \<Rightarrow> EMD" where
  "EMD_clear s = s\<lparr>network_simplex_m := (network_simplex_m s)
                    \<lparr>weights_m := [], dists_m := [], flows_m := []\<rparr>\<rparr>"

text \<open>\<^verbatim>\<open>PairwiseEMD::clear\<close> (lines 559-581).\<close>

definition clear :: "bool \<Rightarrow> 'p PairwiseEMD \<Rightarrow> 'p PairwiseEMD" where
  "clear free_memory s =
    (let s1 = s\<lparr>events_m := [], emds_m := [], full_emds_m := [], error_messages_m := []\<rparr>;
         s2 = s1\<lparr>emd_storage_m := External\<rparr>;
         s3 = s2\<lparr>nevA_m := 0, nevB_m := 0, emd_counter_m := 0, num_emds_m := 0\<rparr>
     in if free_memory
        then s3\<lparr>handler_m := None, emd_objs_m := map EMD_clear (emd_objs_m s3)\<rparr>
        else s3)"

text \<open>\<^verbatim>\<open>init(nev)\<close> for one set of events (lines 718-735). It has no \<^verbatim>\<open>throw\<close> of its
  own; the resizing of the result store (line 730) and the reservation of the event
  store (line 734) raise for a negative count.\<close>

definition init_self :: "index_type \<Rightarrow> 'p PairwiseEMD \<Rightarrow> exn + 'p PairwiseEMD" where
  "init_self nev s =
    (let s1 = (if \<not> request_mode_m s then clear False s else s);
         s2 = s1\<lparr>nevA_m := nev, nevB_m := nev\<rparr>;
         s3 = s2\<lparr>two_event_sets_m := False\<rparr>;
         s4 = s3\<lparr>num_emds_m := (nev * (nev - 1)) sdiv 2\<rparr>
     in on_success
          (if \<not> have_external_emd_handler s4 \<and> \<not> request_mode_m s4 then
             let s5 = s4\<lparr>emd_storage_m :=
                         (if store_sym_emds_flattened_m s4 then FlattenedSymmetric
                          else FullSymmetric)\<rparr>
             in on_success
                  (resize_to (if emd_storage_m s5 = FullSymmetric then nevA_m s5 * nevB_m s5
                              else num_emds_m s5) (emds_m s5))
                  (\<lambda>e. Inr (s5\<lparr>emds_m := e\<rparr>))
           else Inr s4)
          (\<lambda>s6. on_success (reserve (nevA_m s6)) (\<lambda>_. Inr s6)))"

text \<open>\<^verbatim>\<open>init(nevA, nevB)\<close> for two sets of events (lines 738-756).\<close>

definition init_pairs :: "index_type \<Rightarrow> index_type \<Rightarrow> 'p PairwiseEMD \<Rightarrow> exn + 'p PairwiseEMD" where
  "init_pairs nevA nevB s =
    (let s1 = (if \<not> request_mode_m s then clear False s else s);
         s2 = s1\<lparr>nevA_m := nevA, nevB_m := nevB\<rparr>;
         s3 = s2\<lparr>two_event_sets_m := True\<rparr>;
         s4 = s3\<lparr>num_emds_m := nevA * nevB\<rparr>
     in on_success
          (if \<not> have_external_emd_handler s4 \<and> \<not> request_mode_m s4 then
             let s5 = s4\<lparr>emd_storage_m := Full\<rparr>
             in on_success (resize_to (num_emds_m s5) (emds_m s5))
                  (\<lambda>e. Inr (s5\<lparr>emds_m := e\<rparr>))
           else Inr s4)
          (\<lambda>s6. on_success (reserve (nevA + nevB)) (\<lambda>_. Inr s6)))"

text \<open>\<^verbatim>\<open>set_omp_dynamic_chunksize\<close> (lines 499-501). The argument is a 32-bit \<^verbatim>\<open>int\<close> in the
  source, where \<^verbatim>\<open>std::abs\<close> of the least value is undefined; the integers are unbounded
  here and that one call is outside the model.\<close>

definition set_omp_dynamic_chunksize :: "int \<Rightarrow> 'p PairwiseEMD \<Rightarrow> 'p PairwiseEMD" where
  "set_omp_dynamic_chunksize chunksize s = s\<lparr>omp_dynamic_chunksize_m := \<bar>chunksize\<bar>\<rparr>"

text \<open>The private initialiser called by the constructors (lines 872-901), without the streams.\<close>

definition pw_setup ::
  "index_type \<Rightarrow> nat \<Rightarrow> bool \<Rightarrow> bool \<Rightarrow> 'p PairwiseEMD \<Rightarrow> 'p PairwiseEMD" where
  "pw_setup print_every verbose store_sym_emds_flattened throw_on_error s =
    (let s1 = s\<lparr>print_every_m := print_every, verbose_m := verbose,
                store_sym_emds_flattened_m := store_sym_emds_flattened,
                throw_on_error_m := throw_on_error, handler_m := None\<rparr>;
         s2 = s1\<lparr>request_mode_m := False\<rparr>;
         s3 = set_omp_dynamic_chunksize 10 s2;
         s4 = (if print_every_m s3 = 0 then s3\<lparr>print_every_m := - 1\<rparr> else s3);
         s5 = s4\<lparr>emd_objs_m := map (\<lambda>emd_obj. emd_obj\<lparr>do_timing_m := False\<rparr>) (emd_objs_m s4)\<rparr>
     in clear False s5)"

text \<open>\<^verbatim>\<open>determine_num_threads\<close> (lines 861-869) in the build without OpenMP.\<close>

definition determine_num_threads :: "int \<Rightarrow> int" where
  "determine_num_threads num_threads = 1"

text \<open>The first constructor (lines 422-437). \<open>raw\<close> and \<open>raw_emd\<close> are the objects before
  construction; the vectors are default-constructed, that is, empty.\<close>

definition PairwiseEMD_ctor ::
  "'p PairwiseEMD \<Rightarrow> EMD \<Rightarrow> bool \<Rightarrow> Value \<Rightarrow> Value \<Rightarrow> bool \<Rightarrow> int \<Rightarrow> index_type \<Rightarrow> nat
    \<Rightarrow> bool \<Rightarrow> bool \<Rightarrow> nat \<Rightarrow> Value \<Rightarrow> Value \<Rightarrow> 'p PairwiseEMD" where
  "PairwiseEMD_ctor raw raw_emd is_default R beta norm' num_threads print_every verbose
      store_sym_emds_flattened throw_on_error
      n_iter_max epsilon_large_factor epsilon_small_factor =
    (let s0 = raw\<lparr>num_threads_m := determine_num_threads num_threads\<rparr>;
         s1 = s0\<lparr>emd_objs_m := replicate (nat (num_threads_m s0))
                  (EMD_ctor raw_emd is_default R beta norm' False False
                     n_iter_max epsilon_large_factor epsilon_small_factor),
                events_m := [], emds_m := [], full_emds_m := [], error_messages_m := []\<rparr>
     in pw_setup print_every verbose store_sym_emds_flattened throw_on_error s1)"

subsection \<open>Condensed symmetric storage\<close>

text \<open>\<^verbatim>\<open>index_symmetric\<close> (lines 941-952).\<close>

definition index_symmetric :: "index_type \<Rightarrow> index_type \<Rightarrow> 'p PairwiseEMD \<Rightarrow> index_type" where
  "index_symmetric i j s =
    (if j > i then
       num_emds_m s - ((nevA_m s - i) * (nevA_m s - i - 1)) sdiv 2 + j - i - 1
     else if i > j then
       num_emds_m s - ((nevA_m s - j) * (nevA_m s - j - 1)) sdiv 2 + i - j - 1
     else - 1)"

text \<open>The first loop of \<^verbatim>\<open>emds\<close> (lines 649-650): \<^verbatim>\<open>full_emds_[i*i] = 0\<close> for every row.\<close>

function zero_diagonal :: "index_type \<Rightarrow> index_type \<Rightarrow> Value list \<Rightarrow> exn + Value list" where
  "zero_diagonal nevA i full =
    (if i < nevA
     then on_success (vec_set full (i * i) 0) (zero_diagonal nevA (i + 1))
     else Inr full)"
  by pat_completeness auto
termination
  by (relation "measure (\<lambda>(nevA, i, full). nat (nevA - i))") auto

declare zero_diagonal.simps [simp del]

text \<open>The inner loop at lines 654-655, for one row \<open>i\<close>, from column \<open>j\<close> on. In
  \<^verbatim>\<open>a = b = c\<close> the element \<^verbatim>\<open>b\<close> is written first.\<close>

function fill_row ::
  "'p PairwiseEMD \<Rightarrow> index_type \<Rightarrow> index_type \<Rightarrow> Value list \<Rightarrow> exn + Value list" where
  "fill_row s i j full =
    (if j < nevB_m s then
       on_success (vec_get (emds_m s) (index_symmetric i j s)) (\<lambda>v.
       on_success (vec_set full (j * nevB_m s + i) v) (\<lambda>full1.
       on_success (vec_set full1 (i * nevB_m s + j) v) (\<lambda>full2.
       fill_row s i (j + 1) full2)))
     else Inr full)"
  by pat_completeness auto
termination
  by (relation "measure (\<lambda>(s, i, j, full). nat (nevB_m s - j))") auto

declare fill_row.simps [simp del]

text \<open>The outer loop at line 653.\<close>

function fill_rows :: "'p PairwiseEMD \<Rightarrow> index_type \<Rightarrow> Value list \<Rightarrow> exn + Value list" where
  "fill_rows s i full =
    (if i < nevA_m s
     then on_success (fill_row s i (i + 1) full) (fill_rows s (i + 1))
     else Inr full)"
  by pat_completeness auto
termination
  by (relation "measure (\<lambda>(s, i, full). nat (nevA_m s - i))") auto

declare fill_rows.simps [simp del]

text \<open>\<^verbatim>\<open>emds(flattened)\<close> (lines 636-662): the vector returned and the object afterwards.\<close>

definition emds :: "bool \<Rightarrow> 'p PairwiseEMD \<Rightarrow> exn + (Value list \<times> 'p PairwiseEMD)" where
  "emds flattened s =
    (if emd_storage_m s = External then Inl (LogicError ''No EMDs stored'')
     else if emd_storage_m s = FlattenedSymmetric \<and> \<not> flattened then
       on_success (resize_to (nevA_m s * nevB_m s) (full_emds_m s)) (\<lambda>full.
       on_success (zero_diagonal (nevA_m s) 0 full) (\<lambda>full1.
       on_success (fill_rows s 0 full1) (\<lambda>full2.
       Inr (full2, s\<lparr>full_emds_m := full2\<rparr>))))
     else Inr (emds_m s, s))"

subsection \<open>Batch dispatch\<close>

text \<open>\<^verbatim>\<open>record_failure\<close> (lines 923-937), without the copy to the diagnostic stream.\<close>

definition failure_message :: "EMDStatus \<Rightarrow> index_type \<Rightarrow> index_type \<Rightarrow> string" where
  "failure_message status i j =
    ''PairwiseEMD::compute - Issue with EMD between events ('' @ show_int i @ '', ''
      @ show_int j @ ''), error code '' @ show_int (status_code status)"

definition record_failure ::
  "EMDStatus \<Rightarrow> index_type \<Rightarrow> index_type \<Rightarrow> 'p PairwiseEMD \<Rightarrow> 'p PairwiseEMD" where
  "record_failure status i j s =
    s\<lparr>error_messages_m := error_messages_m s @ [failure_message status i j]\<rparr>"

text \<open>\<^verbatim>\<open>(*handler_)(d, w)\<close>: a call through the handler pointer.\<close>

definition call_handler :: "Value \<Rightarrow> Value \<Rightarrow> 'p PairwiseEMD \<Rightarrow> exn + 'p PairwiseEMD" where
  "call_handler d w s =
    (case handler_m s of
       None \<Rightarrow> Inl UndefinedBehaviour
     | Some calls \<Rightarrow> Inr (s\<lparr>handler_m := Some (calls @ [(d, w)])\<rparr>))"

text \<open>The index pair of the flat index \<open>k\<close> in the symmetric case (lines 803 and
  821-824): \<^verbatim>\<open>i = k/nevB\<close>, \<^verbatim>\<open>j = k%nevB\<close>, then \<^verbatim>\<open>if (j >= ++i)\<close> reflects both.\<close>

definition symmetric_pair :: "index_type \<Rightarrow> index_type \<Rightarrow> index_type \<Rightarrow> index_type \<times> index_type" where
  "symmetric_pair nevA nevB k =
    (let i = k sdiv nevB; j = k smod nevB; i = i + 1
     in if j \<ge> i then (nevA - i, nevA - j - 1) else (i, j))"

text \<open>Lines 807-812 and 827-832: the worker's solver runs on the two events and a
  status other than \<open>Success\<close> is recorded.\<close>

definition run_pair ::
  "'p fill_distances \<Rightarrow> ns_compute \<Rightarrow> index_type \<Rightarrow> index_type \<Rightarrow> 'p Event \<Rightarrow> 'p Event
    \<Rightarrow> 'p PairwiseEMD \<Rightarrow> exn + (EMD \<times> 'p PairwiseEMD)" where
  "run_pair fill solve i j eventA eventB s =
    on_success (vec_get (emd_objs_m s) 0) (\<lambda>emd_obj.
      let obj = compute fill solve emd_obj eventA eventB;
          s1 = s\<lparr>emd_objs_m := (emd_objs_m s)[0 := obj]\<rparr>
      in Inr (obj, if status_m obj \<noteq> Success then record_failure (status_m obj) i j s1 else s1))"

text \<open>The body of the loop over \<open>k\<close> (lines 803-845). A division by \<^verbatim>\<open>nevB() == 0\<close> is
  undefined.\<close>

definition dispatch ::
  "'p fill_distances \<Rightarrow> ns_compute \<Rightarrow> index_type \<Rightarrow> 'p PairwiseEMD \<Rightarrow> exn + 'p PairwiseEMD" where
  "dispatch fill solve k s =
    (if nevB_m s = 0 then Inl UndefinedBehaviour
     else if two_event_sets_m s then
       let i = k sdiv nevB_m s; j = k smod nevB_m s in
       on_success (vec_get (events_m s) i) (\<lambda>eventA.
       on_success (vec_get (events_m s) (nevA_m s + j)) (\<lambda>eventB.
       on_success (run_pair fill solve i j eventA eventB s) (\<lambda>(obj, s1).
         if handler_m s1 \<noteq> None
         then call_handler (emd_m obj) (event_weight eventA * event_weight eventB) s1
         else on_success (vec_set (emds_m s1) k (emd_m obj)) (\<lambda>e. Inr (s1\<lparr>emds_m := e\<rparr>)))))
     else
       let (i, j) = symmetric_pair (nevA_m s) (nevB_m s) k in
       on_success (vec_get (events_m s) i) (\<lambda>eventA.
       on_success (vec_get (events_m s) j) (\<lambda>eventB.
       on_success (run_pair fill solve i j eventA eventB s) (\<lambda>(obj, s1).
         if emd_storage_m s1 = FlattenedSymmetric then
           on_success (vec_set (emds_m s1) (index_symmetric i j s1) (emd_m obj))
             (\<lambda>e. Inr (s1\<lparr>emds_m := e\<rparr>))
         else if emd_storage_m s1 = External then
           call_handler (emd_m obj) (event_weight eventA * event_weight eventB) s1
         else if emd_storage_m s1 = FullSymmetric then
           on_success (vec_set (emds_m s1) (j * nevB_m s1 + i) (emd_m obj)) (\<lambda>e1.
           on_success (vec_set e1 (i * nevB_m s1 + j) (emd_m obj)) (\<lambda>e2.
           Inr (s1\<lparr>emds_m := e2\<rparr>)))
         else Inr s1))))"

text \<open>The loop over the flat indices of one chunk (line 801). The upper bound
  \<^verbatim>\<open>emd_counter_\<close> does not change inside the loop and is the argument \<open>stop\<close>.\<close>

function run_chunk ::
  "'p fill_distances \<Rightarrow> ns_compute \<Rightarrow> index_type \<Rightarrow> index_type \<Rightarrow> 'p PairwiseEMD
    \<Rightarrow> exn + 'p PairwiseEMD" where
  "run_chunk fill solve k stop s =
    (if k < stop
     then on_success (dispatch fill solve k s) (run_chunk fill solve (k + 1) stop)
     else Inr s)"
  by pat_completeness auto
termination
  by (relation "measure (\<lambda>(fill, solve, k, stop, s). nat (stop - k))") auto

declare run_chunk.simps [simp del]

text \<open>The chunk size (lines 767-772).\<close>

definition resolved_print_every :: "'p PairwiseEMD \<Rightarrow> index_type" where
  "resolved_print_every s =
    (let print_every = print_every_m s
     in if print_every < 0 then
          let print_every = num_emds_m s sdiv \<bar>print_every_m s\<bar>
          in if print_every = 0 \<or> num_emds_m s smod \<bar>print_every_m s\<bar> \<noteq> 0
             then print_every + 1 else print_every
        else print_every)"

text \<open>The loop over the chunks (lines 783-852). It need not terminate when the chunk
  size is not positive, so its result is optional: \<open>None\<close> is a loop that runs forever.\<close>

partial_function (option) batch_loop ::
  "'p fill_distances \<Rightarrow> ns_compute \<Rightarrow> index_type \<Rightarrow> index_type \<Rightarrow> 'p PairwiseEMD
    \<Rightarrow> (exn + 'p PairwiseEMD) option" where
  "batch_loop fill solve print_every begin s =
    (if emd_counter_m s < num_emds_m s \<and> \<not> (throw_on_error_m s \<and> error_messages_m s \<noteq> [])
     then
       let s1 = s\<lparr>emd_counter_m := emd_counter_m s + print_every\<rparr>;
           s2 = (if emd_counter_m s1 > num_emds_m s1
                 then s1\<lparr>emd_counter_m := num_emds_m s1\<rparr> else s1)
       in case run_chunk fill solve begin (emd_counter_m s2) s2 of
            Inl e \<Rightarrow> Some (Inl e)
          | Inr s3 \<Rightarrow> batch_loop fill solve print_every (emd_counter_m s3) s3
     else Some (Inr s))"

text \<open>\<^verbatim>\<open>PairwiseEMD::compute()\<close> (lines 758-856).\<close>

definition pw_compute ::
  "'p fill_distances \<Rightarrow> ns_compute \<Rightarrow> 'p PairwiseEMD \<Rightarrow> (exn + 'p PairwiseEMD) option" where
  "pw_compute fill solve s =
    (if request_mode_m s
     then Some (Inl (RuntimeError ''cannot compute pairwise EMDs in request mode''))
     else case batch_loop fill solve (resolved_print_every s) 0 s of
            None \<Rightarrow> None
          | Some (Inl e) \<Rightarrow> Some (Inl e)
          | Some (Inr s1) \<Rightarrow>
              if throw_on_error_m s1 \<and> error_messages_m s1 \<noteq> []
              then Some (Inl (RuntimeError (hd (error_messages_m s1))))
              else Some (Inr s1))"

text \<open>The public \<^verbatim>\<open>compute(events)\<close> (lines 605-609): \<open>init\<close>, the copy of the events
  (\<open>load_events\<close>), then the private \<open>compute\<close>.\<close>

definition load_events :: "'p Event list \<Rightarrow> 'p PairwiseEMD \<Rightarrow> exn + 'p PairwiseEMD" where
  "load_events events s =
    on_success (init_self (int (length events)) s) (\<lambda>s1. Inr (s1\<lparr>events_m := events\<rparr>))"

definition compute_events ::
  "'p fill_distances \<Rightarrow> ns_compute \<Rightarrow> 'p Event list \<Rightarrow> 'p PairwiseEMD
    \<Rightarrow> (exn + 'p PairwiseEMD) option" where
  "compute_events fill solve events s =
    (case load_events events s of
       Inl e \<Rightarrow> Some (Inl e)
     | Inr s1 \<Rightarrow> pw_compute fill solve s1)"

text \<open>The public \<^verbatim>\<open>compute(eventsA, eventsB)\<close> (lines 612-618).\<close>

definition load_event_sets ::
  "'p Event list \<Rightarrow> 'p Event list \<Rightarrow> 'p PairwiseEMD \<Rightarrow> exn + 'p PairwiseEMD" where
  "load_event_sets eventsA eventsB s =
    on_success (init_pairs (int (length eventsA)) (int (length eventsB)) s) (\<lambda>s1.
    on_success (reserve (nevA_m s1 + nevB_m s1)) (\<lambda>_.
    Inr (s1\<lparr>events_m := events_m s1 @ eventsA @ eventsB\<rparr>)))"

definition compute_event_sets ::
  "'p fill_distances \<Rightarrow> ns_compute \<Rightarrow> 'p Event list \<Rightarrow> 'p Event list \<Rightarrow> 'p PairwiseEMD
    \<Rightarrow> (exn + 'p PairwiseEMD) option" where
  "compute_event_sets fill solve eventsA eventsB s =
    (case load_event_sets eventsA eventsB s of
       Inl e \<Rightarrow> Some (Inl e)
     | Inr s1 \<Rightarrow> pw_compute fill solve s1)"

subsection \<open>Single queries\<close>



section \<open>Auxiliary predicates\<close>

text \<open>The sum of a sequence as a floating-point accumulation from zero computes it.\<close>

definition rounded_sum :: "(Value \<Rightarrow> Value) \<Rightarrow> Value list \<Rightarrow> Value" where
  "rounded_sum rnd xs = foldl (\<lambda>acc x. rnd (acc + x)) 0 xs"

text \<open>What the dispatch of a pair leaves alone: the sizes, the counters, the flags, the
  events, the storage mode, the lengths of the result store and of the solver pool,
  and whether a handler is set; the failure log only grows at its end.\<close>

definition same_batch :: "'p PairwiseEMD \<Rightarrow> 'p PairwiseEMD \<Rightarrow> bool" where
  "same_batch s s' =
    (nevA_m s' = nevA_m s \<and> nevB_m s' = nevB_m s \<and> num_emds_m s' = num_emds_m s
     \<and> emd_counter_m s' = emd_counter_m s \<and> throw_on_error_m s' = throw_on_error_m s
     \<and> request_mode_m s' = request_mode_m s \<and> events_m s' = events_m s
     \<and> emd_storage_m s' = emd_storage_m s \<and> two_event_sets_m s' = two_event_sets_m s
     \<and> print_every_m s' = print_every_m s \<and> num_threads_m s' = num_threads_m s
     \<and> full_emds_m s' = full_emds_m s
     \<and> length (emds_m s') = length (emds_m s) \<and> length (emd_objs_m s') = length (emd_objs_m s)
     \<and> (handler_m s' = None) = (handler_m s = None)
     \<and> prefix (error_messages_m s) (error_messages_m s'))"


text \<open>A batch as \<open>init\<close> and the copy of the events leave it outside request mode, and
  as the dispatch of a pair keeps it: one solver at least, sizes that are not negative,
  the events of the one or the two collections, and external storage exactly when a
  handler is set; without a handler the result store has the size of the storage mode
  that \<open>init\<close> selected.\<close>

definition batch_state :: "'p PairwiseEMD \<Rightarrow> bool" where
  "batch_state s =
    (\<not> request_mode_m s \<and> emd_objs_m s \<noteq> [] \<and> 0 \<le> nevA_m s \<and> 0 \<le> nevB_m s
     \<and> (if two_event_sets_m s then
          num_emds_m s = nevA_m s * nevB_m s
          \<and> int (length (events_m s)) = nevA_m s + nevB_m s
          \<and> (case handler_m s of
                Some calls \<Rightarrow> emd_storage_m s = External
              | None \<Rightarrow> emd_storage_m s = Full \<and> int (length (emds_m s)) = num_emds_m s)
        else
          nevB_m s = nevA_m s
          \<and> num_emds_m s = (nevA_m s * (nevA_m s - 1)) sdiv 2
          \<and> int (length (events_m s)) = nevA_m s
          \<and> (case handler_m s of
                Some calls \<Rightarrow> emd_storage_m s = External
              | None \<Rightarrow>
                  emd_storage_m s = FlattenedSymmetric
                    \<and> int (length (emds_m s)) = num_emds_m s
                  \<or> emd_storage_m s = FullSymmetric
                    \<and> int (length (emds_m s)) = nevA_m s * nevA_m s)))"

section \<open>Inputs for the examples\<close>

definition raw_EMD :: EMD where
  "raw_EMD =
     \<lparr>norm_m = False, do_timing_m = False, external_dists_m = False, n0_m = 0, n1_m = 0,
      extra_m = Neither, weightdiff_m = 0, scale_m = 0, emd_m = 0, status_m = Success,
      pairwise_distance_m = \<lparr>R_m = 0, beta_m = 0\<rparr>,
      network_simplex_m = \<lparr>n_iter_max_m = 0, epsilon_large_factor_m = 0,
        epsilon_small_factor_m = 0, weights_m = [], dists_m = [], flows_m = [],
        total_cost_m = 0\<rparr>\<rparr>"

definition fresh_EMD :: EMD where
  "fresh_EMD = EMD_ctor raw_EMD False 1 1 False False False 100000 10000 1"

definition raw_PairwiseEMD :: "nat PairwiseEMD" where
  "raw_PairwiseEMD =
     \<lparr>num_threads_m = 0, omp_dynamic_chunksize_m = 0, emd_objs_m = [], print_every_m = 0,
      handler_m = None, verbose_m = 0, store_sym_emds_flattened_m = False,
      throw_on_error_m = False, request_mode_m = False, events_m = [], emds_m = [],
      full_emds_m = [], error_messages_m = [], nevA_m = 0, nevB_m = 0, num_emds_m = 0,
      emd_counter_m = 0, emd_storage_m = Full, two_event_sets_m = False\<rparr>"

text \<open>An engine as the constructor leaves it: \<open>flat\<close> selects flattened storage,
  \<open>throw\<close> raise-on-error, \<open>pe\<close> is \<^verbatim>\<open>print_every\<close>.\<close>

definition fresh_PairwiseEMD :: "bool \<Rightarrow> bool \<Rightarrow> index_type \<Rightarrow> nat PairwiseEMD" where
  "fresh_PairwiseEMD flat throw pe =
     PairwiseEMD_ctor raw_PairwiseEMD raw_EMD False 1 1 False (- 1) pe 1 flat throw 100000 10000 1"

definition light_event :: "nat Event" where
  "light_event = \<lparr>weights = [1], particles = [0], total_weight = 1, event_weight = 1\<rparr>"

definition heavy_event :: "nat Event" where
  "heavy_event = \<lparr>weights = [1, 1], particles = [1, 2], total_weight = 2, event_weight = 1\<rparr>"

definition keep_dists :: "nat fill_distances" where
  "keep_dists pd ps0 ps1 ds extra = ds"

definition fixed_cost_solver :: "EMDStatus \<Rightarrow> Value \<Rightarrow> ns_compute" where
  "fixed_cost_solver st c ns n0 n1 = (st, ns\<lparr>total_cost_m := c\<rparr>)"

definition solver_3x4 :: EMD where
  "solver_3x4 = fresh_EMD\<lparr>n0_m := 3, n1_m := 4, scale_m := 2,
     network_simplex_m := (network_simplex_m fresh_EMD)
       \<lparr>flows_m := [0, 1, 2, 3, 4, 5, 6, 7, 8, 9, 10, 11, 0]\<rparr>\<rparr>"

definition three_events :: "nat Event list" where
  "three_events = [light_event, heavy_event, light_event]"

text \<open>An engine with three events loaded for a self-pairs batch.\<close>

definition loaded_self :: "bool \<Rightarrow> bool \<Rightarrow> index_type \<Rightarrow> nat PairwiseEMD" where
  "loaded_self flat throw pe = projr (load_events three_events (fresh_PairwiseEMD flat throw pe))"

text \<open>The same with an external handler registered beforehand.\<close>

definition loaded_self_handler :: "nat PairwiseEMD" where
  "loaded_self_handler =
     projr (load_events three_events
       (set_external_emd_handler [] (fresh_PairwiseEMD True False 3)))"

definition two_events :: "nat Event list" where
  "two_events = [light_event, heavy_event]"

text \<open>The engine after a batch over the three events, flattened storage, every pair
  solved with transport cost \<open>5 / 2\<close> before rescaling.\<close>

definition stored_batch3 :: "nat PairwiseEMD" where
  "stored_batch3 =
     projr (the (compute_events keep_dists (fixed_cost_solver Success (5 / 2)) three_events
       (fresh_PairwiseEMD True False 3)))"

text \<open>The same after a call of \<open>emds\<close> for the dense view.\<close>

definition viewed_batch3 :: "nat PairwiseEMD" where
  "viewed_batch3 = snd (projr (emds False stored_batch3))"

text \<open>Request mode is switched on and the public \<open>compute(events)\<close> is called with two
  events: \<open>init\<close> and the copy of the events run, then the private \<open>compute\<close> raises and
  leaves the engine in this state.\<close>

definition reloaded_in_request_mode :: "nat PairwiseEMD" where
  "reloaded_in_request_mode =
     projr (load_events two_events (set_request_mode True viewed_batch3))"

text \<open>Two events of one particle each, with the weights that the decimal literals 0.03
  and 0.29 denote in double precision.\<close>

definition event_0_03 :: "nat Event" where
  "event_0_03 =
     \<lparr>weights = [binary64 (3 / 100)], particles = [0], total_weight = binary64 (3 / 100),
      event_weight = 1\<rparr>"

definition event_0_29 :: "nat Event" where
  "event_0_29 =
     \<lparr>weights = [binary64 (29 / 100)], particles = [1], total_weight = binary64 (29 / 100),
      event_weight = 1\<rparr>"

text \<open>Two collections of events with distinct event weights, loaded for a batch over
  two event sets, without and with an external handler.\<close>

definition weighted_events_A :: "nat Event list" where
  "weighted_events_A = [light_event\<lparr>event_weight := 2\<rparr>, heavy_event]"

definition weighted_events_B :: "nat Event list" where
  "weighted_events_B = [heavy_event\<lparr>event_weight := 3\<rparr>]"

definition loaded_pairs :: "nat PairwiseEMD" where
  "loaded_pairs =
     projr (load_event_sets weighted_events_A weighted_events_B
       (fresh_PairwiseEMD False False (- 10)))"

definition loaded_pairs_handler :: "nat PairwiseEMD" where
  "loaded_pairs_handler =
     projr (load_event_sets weighted_events_A weighted_events_B
       (set_external_emd_handler [] (fresh_PairwiseEMD False False (- 10))))"

section \<open>Properties of the single-pair solver\<close>

text \<open>
  C10: after construction the \<open>external_dists\<close> flag is the type-based constant
  (whether the pairwise distance is the default one), whatever value the caller passed
  for \<open>external_dists\<close>.
\<close>

theorem ctor_overwrites_external_dists:
  "external_dists_m (EMD_ctor raw is_default R beta norm' do_timing external_dists
      n_iter_max epsilon_large_factor epsilon_small_factor) = is_default"
  by (simp add: EMD_ctor_def set_external_dists_def Let_def)

lemma length_resize: "length (resize n xs) = n"
  by (simp add: resize_def)

lemma split_buffer:
  assumes "length xs = l0 + l1 + 1"
  obtains a b t where "xs = a @ b @ [t]" "length a = l0" "length b = l1"
proof -
  have ne: "xs \<noteq> []" using assms by auto
  have 1: "xs = take l0 (butlast xs) @ drop l0 (butlast xs) @ [last xs]"
    using ne by (metis append_take_drop_id append_butlast_last_id append_assoc)
  have 2: "length (take l0 (butlast xs)) = l0" "length (drop l0 (butlast xs)) = l1"
    using assms by simp_all
  show thesis using that [OF 1 2] .
qed

lemma fill_neither:
  assumes "length buf = length ws0 + length ws1 + 1"
  shows "\<exists>t. copy ws1 (length ws0) (copy ws0 0 buf) = ws0 @ ws1 @ [t]"
proof -
  obtain a b t where s: "buf = a @ b @ [t]" "length a = length ws0" "length b = length ws1"
    by (rule split_buffer [OF assms])
  have "copy ws1 (length ws0) (copy ws0 0 (a @ b @ [t])) = ws0 @ ws1 @ [t]"
    using s(2,3) by (simp add: copy_def)
  then show ?thesis unfolding s(1) by blast
qed

lemma fill_zero:
  assumes "length buf = length ws0 + 1 + length ws1 + 1"
  shows "\<exists>t. copy ws1 (length ws0 + 1) ((copy ws0 0 buf)[length ws0 := d])
    = ws0 @ [d] @ ws1 @ [t]"
proof -
  obtain a b t where s: "buf = a @ b @ [t]" "length a = length ws0 + 1"
    "length b = length ws1"
    by (rule split_buffer [OF assms])
  obtain a' x where a: "a = a' @ [x]" "length a' = length ws0"
    using s(2) by (metis Suc_eq_plus1 length_Suc_conv_rev)
  have "copy ws1 (length ws0 + 1) ((copy ws0 0 ((a' @ [x]) @ b @ [t]))[length ws0 := d])
      = ws0 @ [d] @ ws1 @ [t]"
    using a(2) s(3) by (simp add: copy_def list_update_append)
  then show ?thesis unfolding s(1) a(1) by blast
qed

lemma fill_one:
  assumes "length buf = length ws0 + (length ws1 + 1) + 1"
  shows "\<exists>t. (copy ws1 (length ws0) (copy ws0 0 buf))[length ws0 + length ws1 := d]
    = ws0 @ ws1 @ [d] @ [t]"
proof -
  obtain a b t where s: "buf = a @ b @ [t]" "length a = length ws0"
    "length b = length ws1 + 1"
    by (rule split_buffer [OF assms])
  obtain b' x where b: "b = b' @ [x]" "length b' = length ws1"
    using s(3) by (metis Suc_eq_plus1 length_Suc_conv_rev)
  have "(copy ws1 (length ws0) (copy ws0 0 (a @ (b' @ [x]) @ [t])))[length ws0 + length ws1 := d]
      = ws0 @ ws1 @ [d] @ [t]"
    using b(2) s(2) by (simp add: copy_def list_update_append)
  then show ?thesis unfolding s(1) b(1) by blast
qed

lemma balance_pos:
  assumes "\<not> norm_m s" "\<not> external_dists_m s"
    and "0 < rnd (total_weight ev1 - total_weight ev0)"
  shows "extra_m (compute_balance_rnd rnd s ev0 ev1) = Zero"
    and "n0_m (compute_balance_rnd rnd s ev0 ev1) = int (length (weights ev0)) + 1"
    and "n1_m (compute_balance_rnd rnd s ev0 ev1) = int (length (weights ev1))"
    and "\<exists>t. weights_m (network_simplex_m (compute_balance_rnd rnd s ev0 ev1)) =
          weights ev0 @ [rnd (total_weight ev1 - total_weight ev0)] @ weights ev1 @ [t]"
proof -
  show "extra_m (compute_balance_rnd rnd s ev0 ev1) = Zero"
    "n0_m (compute_balance_rnd rnd s ev0 ev1) = int (length (weights ev0)) + 1"
    "n1_m (compute_balance_rnd rnd s ev0 ev1) = int (length (weights ev1))"
    using assms by (auto simp add: compute_balance_rnd_def Let_def set_weights_def)
  let ?buf = "resize (nat (int (length (weights ev0)) + 1 + int (length (weights ev1)) + 1))
      (weights_m (network_simplex_m s))"
  have "weights_m (network_simplex_m (compute_balance_rnd rnd s ev0 ev1))
      = copy (weights ev1) (length (weights ev0) + 1)
          ((copy (weights ev0) 0 ?buf)
             [length (weights ev0) := rnd (total_weight ev1 - total_weight ev0)])"
    using assms by (auto simp add: compute_balance_rnd_def Let_def set_weights_def)
  moreover have "\<exists>t. copy (weights ev1) (length (weights ev0) + 1)
          ((copy (weights ev0) 0 ?buf)
             [length (weights ev0) := rnd (total_weight ev1 - total_weight ev0)])
      = weights ev0 @ [rnd (total_weight ev1 - total_weight ev0)] @ weights ev1 @ [t]"
    by (rule fill_zero) (simp add: length_resize)
  ultimately show "\<exists>t. weights_m (network_simplex_m (compute_balance_rnd rnd s ev0 ev1)) =
          weights ev0 @ [rnd (total_weight ev1 - total_weight ev0)] @ weights ev1 @ [t]"
    by simp
qed

lemma balance_neg:
  assumes "\<not> norm_m s" "\<not> external_dists_m s"
    and "rnd (total_weight ev1 - total_weight ev0) < 0"
  shows "extra_m (compute_balance_rnd rnd s ev0 ev1) = One"
    and "n0_m (compute_balance_rnd rnd s ev0 ev1) = int (length (weights ev0))"
    and "n1_m (compute_balance_rnd rnd s ev0 ev1) = int (length (weights ev1)) + 1"
    and "\<exists>t. weights_m (network_simplex_m (compute_balance_rnd rnd s ev0 ev1)) =
          weights ev0 @ weights ev1 @ [- rnd (total_weight ev1 - total_weight ev0)] @ [t]"
proof -
  show "extra_m (compute_balance_rnd rnd s ev0 ev1) = One"
    "n0_m (compute_balance_rnd rnd s ev0 ev1) = int (length (weights ev0))"
    "n1_m (compute_balance_rnd rnd s ev0 ev1) = int (length (weights ev1)) + 1"
    using assms by (auto simp add: compute_balance_rnd_def Let_def set_weights_def)
  let ?buf = "resize (nat (int (length (weights ev0)) + (int (length (weights ev1)) + 1) + 1))
      (weights_m (network_simplex_m s))"
  have "weights_m (network_simplex_m (compute_balance_rnd rnd s ev0 ev1))
      = (copy (weights ev1) (length (weights ev0)) (copy (weights ev0) 0 ?buf))
          [length (weights ev0) + length (weights ev1)
             := - rnd (total_weight ev1 - total_weight ev0)]"
    using assms by (auto simp add: compute_balance_rnd_def Let_def set_weights_def)
  moreover have "\<exists>t. (copy (weights ev1) (length (weights ev0)) (copy (weights ev0) 0 ?buf))
          [length (weights ev0) + length (weights ev1)
             := - rnd (total_weight ev1 - total_weight ev0)]
      = weights ev0 @ weights ev1 @ [- rnd (total_weight ev1 - total_weight ev0)] @ [t]"
    by (rule fill_one) (simp add: length_resize)
  ultimately show "\<exists>t. weights_m (network_simplex_m (compute_balance_rnd rnd s ev0 ev1)) =
          weights ev0 @ weights ev1 @ [- rnd (total_weight ev1 - total_weight ev0)] @ [t]"
    by simp
qed

lemma balance_weightdiff:
  "weightdiff_m (compute_balance_rnd rnd s ev0 ev1) = rnd (total_weight ev1 - total_weight ev0)"
  by (simp add: compute_balance_rnd_def Let_def set_weights_def)

lemma compute_rnd_keeps_counts:
  "extra_m (compute_rnd rnd fill solve s ev0 ev1) = extra_m (compute_balance_rnd rnd s ev0 ev1)"
  "n0_m (compute_rnd rnd fill solve s ev0 ev1) = n0_m (compute_balance_rnd rnd s ev0 ev1)"
  "n1_m (compute_rnd rnd fill solve s ev0 ev1) = n1_m (compute_balance_rnd rnd s ev0 ev1)"
  by (simp_all add: compute_rnd_def compute_solve_rnd_def compute_dists_def compute_scale_rnd_def
      set_weights_def Let_def split: prod.splits)

lemma compute_rnd_exact:
  "compute_rnd (\<lambda>x. x) fill solve s ev0 ev1 = compute fill solve s ev0 ev1"
  by (simp add: compute_rnd_def compute_def compute_solve_def compute_scale_def
      compute_balance_def)

text \<open>The exponent and the rounding: \<open>binary_exponent\<close> brackets its argument between
  two powers of two, the rounded value lies within half a unit in the last place, and
  the rounding keeps the sign.\<close>

lemma floor_bitlen_bounds:
  assumes "1 \<le> (z::real)"
  shows "0 \<le> bitlen \<lfloor>z\<rfloor> - 1" "2 ^ nat (bitlen \<lfloor>z\<rfloor> - 1) \<le> z"
    "z < 2 * 2 ^ nat (bitlen \<lfloor>z\<rfloor> - 1)"
proof -
  define n where "n = \<lfloor>z\<rfloor>"
  have n: "0 < n" using assms by (simp add: n_def)
  have b: "2 ^ nat (bitlen n - 1) \<le> n" "n < 2 ^ nat (bitlen n)"
    using bitlen_bounds [OF n] by simp_all
  have p: "0 < bitlen n" using n bitlen_eq_zero_iff [of n] bitlen_nonneg [of n] by linarith
  then show "0 \<le> bitlen \<lfloor>z\<rfloor> - 1" by (simp add: n_def)
  have "(2::real) ^ nat (bitlen n - 1) = of_int (2 ^ nat (bitlen n - 1))" by simp
  also have "\<dots> \<le> of_int n" using b(1) by (simp only: of_int_le_iff)
  also have "\<dots> \<le> z" by (simp add: n_def)
  finally show "2 ^ nat (bitlen \<lfloor>z\<rfloor> - 1) \<le> z" by (simp add: n_def)
  have e: "nat (bitlen n) = Suc (nat (bitlen n - 1))" using p by linarith
  have "n + 1 \<le> 2 ^ nat (bitlen n)" using b(2) by linarith
  then have "of_int (n + 1) \<le> (of_int (2 ^ nat (bitlen n)) :: real)" by (simp only: of_int_le_iff)
  moreover have "z < of_int (n + 1)" by (simp add: n_def)
  ultimately have "z < 2 ^ nat (bitlen n)" by simp
  then have "z < 2 ^ Suc (nat (bitlen n - 1))" by (simp only: e)
  then show "z < 2 * 2 ^ nat (bitlen \<lfloor>z\<rfloor> - 1)" by (simp add: n_def)
qed

lemma binary_exponent_bounds:
  assumes "0 < y"
  shows "power_int 2 (binary_exponent y) \<le> y" "y < 2 * power_int 2 (binary_exponent y)"
proof -
  have "power_int 2 (binary_exponent y) \<le> y \<and> y < 2 * power_int 2 (binary_exponent y)"
  proof (cases "1 \<le> y")
    case True
    note b = floor_bitlen_bounds [OF True]
    show ?thesis using True b by (simp add: binary_exponent_def power_int_def)
  next
    case False
    define z where "z = 1 / y"
    have z: "1 \<le> z" "0 < z" "y = 1 / z" using assms False by (simp_all add: z_def)
    define f where "f = bitlen \<lfloor>z\<rfloor> - 1"
    define p where "p = (2::real) ^ nat f"
    have b: "0 \<le> f" "p \<le> z" "z < 2 * p"
      using floor_bitlen_bounds [OF z(1)] by (simp_all add: f_def p_def)
    have p0: "0 < p" by (simp add: p_def)
    show ?thesis
    proof (cases "z = p")
      case True
      have e: "binary_exponent y = - f"
        using False True by (simp add: binary_exponent_def Let_def z_def f_def p_def)
      have "power_int 2 (- f) = 1 / p"
        using b(1) by (simp add: power_int_def p_def power_one_over inverse_eq_divide)
      then have "power_int 2 (- f) \<le> y \<and> y < 2 * power_int 2 (- f)"
        using True z(3) p0 by (simp add: divide_strict_right_mono)
      then show ?thesis by (simp only: e)
    next
      case ne: False
      have e: "binary_exponent y = - f - 1"
        using False ne by (simp add: binary_exponent_def Let_def z_def f_def p_def)
      have n1: "nat (f + 1) = Suc (nat f)" "nat (1 + f) = Suc (nat f)" using b(1) by linarith+
      have "power_int 2 (- f - 1) = 1 / (2 * p)"
        using b(1) by (simp add: power_int_def p_def power_one_over inverse_eq_divide n1)
      moreover have "1 / (2 * p) < 1 / z" using b(3) z(2) p0 by (simp add: frac_less2)
      moreover have "1 / z < 1 / p" using b(2) ne z(2) p0 by (simp add: frac_less2)
      ultimately have "power_int 2 (- f - 1) \<le> y \<and> y < 2 * power_int 2 (- f - 1)"
        using z(3) p0 by simp
      then show ?thesis by (simp only: e)
    qed
  qed
  then show "power_int 2 (binary_exponent y) \<le> y" "y < 2 * power_int 2 (binary_exponent y)"
    by simp_all
qed


lemma round_to_even_error: "\<bar>of_int (round_to_even q) - q\<bar> \<le> 1 / 2"
proof -
  have "0 \<le> q - of_int \<lfloor>q\<rfloor>" "q - of_int \<lfloor>q\<rfloor> < 1" by linarith+
  then show ?thesis by (auto simp add: round_to_even_def Let_def)
qed

lemma binary64_error: "\<bar>binary64 x - x\<bar> \<le> \<bar>x\<bar> / 2 ^ 53"
proof (cases "x = 0")
  case True
  then show ?thesis by (simp add: binary64_def)
next
  case False
  define e where "e = binary_exponent \<bar>x\<bar> - 52"
  define u where "u = power_int (2::real) e"
  define q where "q = x * power_int 2 (- e)"
  have u0: "0 < u" by (simp add: u_def zero_less_power_int)
  have qu: "q * u = x" "q = x / u"
    using u0 by (simp_all add: q_def u_def power_int_minus field_simps)
  have b: "binary64 x = of_int (round_to_even q) * u"
    using False by (simp add: binary64_def Let_def e_def u_def q_def)
  have "u * 2 ^ 52 = power_int 2 (binary_exponent \<bar>x\<bar>)"
    by (simp add: u_def e_def power_int_diff)
  also have "\<dots> \<le> \<bar>x\<bar>" using binary_exponent_bounds(1) [of "\<bar>x\<bar>"] False by simp
  finally have ub: "u * 2 ^ 52 \<le> \<bar>x\<bar>" .
  have "binary64 x - x = of_int (round_to_even q) * u - q * u"
    by (simp only: b qu(1))
  then have "binary64 x - x = (of_int (round_to_even q) - q) * u"
    by (simp add: algebra_simps)
  then have "\<bar>binary64 x - x\<bar> = \<bar>of_int (round_to_even q) - q\<bar> * u"
    using u0 by (simp add: abs_mult)
  also have "\<dots> \<le> 1 / 2 * u"
    using round_to_even_error [of q] u0 by (intro mult_right_mono) simp_all
  also have "\<dots> \<le> \<bar>x\<bar> / 2 ^ 53" using ub by simp
  finally show ?thesis .
qed

lemma binary64_sgn: "sgn (binary64 x) = sgn x"
proof -
  have "\<bar>x\<bar> / 2 ^ 53 \<le> \<bar>x\<bar> / 2" by (intro divide_left_mono) simp_all
  then have "\<bar>binary64 x - x\<bar> \<le> \<bar>x\<bar> / 2" using binary64_error [of x] by linarith
  then have e: "\<bar>binary64 x - x\<bar> \<le> \<bar>x\<bar> / 2" .
  show ?thesis
  proof (cases "x = 0")
    case True
    then show ?thesis by (simp add: binary64_def)
  next
    case False
    define b where "b = binary64 x"
    have "\<bar>b - x\<bar> \<le> \<bar>x\<bar> / 2" using e by (simp add: b_def)
    then have "sgn b = sgn x" using False by (auto simp add: sgn_if abs_if split: if_splits)
    then show ?thesis by (simp add: b_def)
  qed
qed


text \<open>Values of \<open>binary64\<close>; the denominators are \<open>2^50\<close>, \<open>2^52\<close>, \<open>2^54\<close> and \<open>2^55\<close>.\<close>

lemma binary64_examples:
  "binary64 (3 / 100) = 1080863910568919 / 36028797018963968"
  "binary64 (29 / 100) = 5224175567749775 / 18014398509481984"
  "binary64 (5224175567749775 / 18014398509481984 - 1080863910568919 / 36028797018963968)
     = 1170935903116329 / 4503599627370496"
  "binary64 (1080863910568919 / 36028797018963968 - 5224175567749775 / 18014398509481984)
     = - (1170935903116329 / 4503599627370496)"
  "binary64 (1080863910568919 / 36028797018963968) = 1080863910568919 / 36028797018963968"
  "binary64 (5224175567749775 / 18014398509481984) = 5224175567749775 / 18014398509481984"
  "binary64 (1080863910568919 / 36028797018963968 + 1170935903116329 / 4503599627370496)
     = 326510972984361 / 1125899906842624"
  "binary64 (10448351135499551 / 36028797018963968) = 326510972984361 / 1125899906842624"
  "binary64 (9367487224930631 / 36028797018963968) = 1170935903116329 / 4503599627370496"
  "binary64 (- (9367487224930631 / 36028797018963968))
     = - (1170935903116329 / 4503599627370496)"
  "binary64 1 = 1" "binary64 (- 1) = - 1"
  by (simp_all add: binary64_def binary_exponent_def round_to_even_def Let_def compute_bitlen
      power_int_def power_one_over)

lemma rounding_example_events:
  "weights event_0_03 = [1080863910568919 / 36028797018963968]"
  "total_weight event_0_03 = 1080863910568919 / 36028797018963968"
  "weights event_0_29 = [5224175567749775 / 18014398509481984]"
  "total_weight event_0_29 = 5224175567749775 / 18014398509481984"
  by (simp_all only: event_0_03_def event_0_29_def binary64_examples Event.simps)

lemma fresh_EMD_flags: "\<not> norm_m fresh_EMD" "\<not> external_dists_m fresh_EMD"
  by (simp_all add: fresh_EMD_def raw_EMD_def EMD_ctor_def set_external_dists_def Let_def)

text \<open>
  C1, as amended: for events of unequal total weight, with \<open>norm\<close> off and no external
  distances, exactly one padding weight is appended. The weight difference is computed
  in floating point, \<open>\<Delta> = rnd (total(B) - total(A))\<close>, and the rounding is taken to keep
  the sign of the exact difference, as \<open>binary64\<close> does at every input
  (\<open>binary64_sgn\<close>). The padding goes on the side of smaller total weight: when
  \<open>total(A) < total(B)\<close>, \<open>\<Delta>\<close> is positive, it stands right after the weights of A and
  \<open>n0\<close> is one more than the size of A; when \<open>total(B) < total(A)\<close>, \<open>\<Delta>\<close> is negative,
  \<open>\<bar>\<Delta>\<bar>\<close> stands right after the weights of B and \<open>n1\<close> is one more than the size of B.
  The sum of the first \<open>n0\<close> weights exceeds that of the next \<open>n1\<close> weights by
  \<open>sum(A) - sum(B) + \<Delta>\<close>. When the totals are the sums of the weights, this gap is the
  rounding error \<open>\<Delta> - (total(B) - total(A))\<close> of the subtraction: the two sides have
  equal totals exactly when the subtraction is exact, and in double precision the gap
  is at most \<open>\<bar>total(B) - total(A)\<bar> / 2^53\<close>. The rest of \<open>compute\<close> leaves \<open>n0\<close>, \<open>n1\<close> and
  the padding tag as they are.
\<close>

theorem padding_goes_to_lighter_side:
  assumes "\<not> norm_m s" and "\<not> external_dists_m s"
    and "total_weight ev0 \<noteq> total_weight ev1"
    and "sgn (rnd (total_weight ev1 - total_weight ev0)) = sgn (total_weight ev1 - total_weight ev0)"
  shows "let s' = compute_balance_rnd rnd s ev0 ev1;
             w = weights_m (network_simplex_m s');
             d = rnd (total_weight ev1 - total_weight ev0);
             gap = sum_list (take (nat (n0_m s')) w)
                   - sum_list (take (nat (n1_m s')) (drop (nat (n0_m s')) w));
             r = compute_rnd rnd fill solve s ev0 ev1
         in weightdiff_m s' = d
          \<and> n0_m s' + n1_m s' = int (length (weights ev0)) + int (length (weights ev1)) + 1
          \<and> length w = nat (n0_m s' + n1_m s') + 1
          \<and> (extra_m s' = Zero) = (total_weight ev0 < total_weight ev1)
          \<and> (extra_m s' = One) = (total_weight ev1 < total_weight ev0)
          \<and> (total_weight ev0 < total_weight ev1 \<longrightarrow>
                0 < d \<and> n0_m s' = int (length (weights ev0)) + 1
                \<and> n1_m s' = int (length (weights ev1))
                \<and> take (nat (n0_m s' + n1_m s')) w = weights ev0 @ [d] @ weights ev1)
          \<and> (total_weight ev1 < total_weight ev0 \<longrightarrow>
                d < 0 \<and> n0_m s' = int (length (weights ev0))
                \<and> n1_m s' = int (length (weights ev1)) + 1
                \<and> take (nat (n0_m s' + n1_m s')) w = weights ev0 @ weights ev1 @ [\<bar>d\<bar>])
          \<and> gap = sum_list (weights ev0) - sum_list (weights ev1) + d
          \<and> (total_is_sum ev0 \<and> total_is_sum ev1 \<longrightarrow>
                gap = d - (total_weight ev1 - total_weight ev0)
                \<and> (gap = 0) = (d = total_weight ev1 - total_weight ev0)
                \<and> (rnd = binary64 \<longrightarrow> \<bar>gap\<bar> \<le> \<bar>total_weight ev1 - total_weight ev0\<bar> / 2 ^ 53))
          \<and> extra_m r = extra_m s' \<and> n0_m r = n0_m s' \<and> n1_m r = n1_m s'"
proof -
  let ?x = "total_weight ev1 - total_weight ev0"
  let ?s' = "compute_balance_rnd rnd s ev0 ev1"
  let ?w = "weights_m (network_simplex_m ?s')"
  let ?gap = "sum_list (take (nat (n0_m ?s')) ?w)
      - sum_list (take (nat (n1_m ?s')) (drop (nat (n0_m ?s')) ?w))"
  have main: "n0_m ?s' + n1_m ?s' = int (length (weights ev0)) + int (length (weights ev1)) + 1
      \<and> length ?w = nat (n0_m ?s' + n1_m ?s') + 1
      \<and> (extra_m ?s' = Zero) = (total_weight ev0 < total_weight ev1)
      \<and> (extra_m ?s' = One) = (total_weight ev1 < total_weight ev0)
      \<and> (total_weight ev0 < total_weight ev1 \<longrightarrow>
            0 < rnd ?x \<and> n0_m ?s' = int (length (weights ev0)) + 1
            \<and> n1_m ?s' = int (length (weights ev1))
            \<and> take (nat (n0_m ?s' + n1_m ?s')) ?w = weights ev0 @ [rnd ?x] @ weights ev1)
      \<and> (total_weight ev1 < total_weight ev0 \<longrightarrow>
            rnd ?x < 0 \<and> n0_m ?s' = int (length (weights ev0))
            \<and> n1_m ?s' = int (length (weights ev1)) + 1
            \<and> take (nat (n0_m ?s' + n1_m ?s')) ?w = weights ev0 @ weights ev1 @ [\<bar>rnd ?x\<bar>])
      \<and> ?gap = sum_list (weights ev0) - sum_list (weights ev1) + rnd ?x"
  proof (cases "total_weight ev0 < total_weight ev1")
    case True
    then have d: "0 < rnd ?x" using assms(4) by (simp add: sgn_if split: if_splits)
    note b = balance_pos [where rnd = rnd and ?ev0.0 = ev0 and ?ev1.0 = ev1, OF assms(1,2) d]
    obtain t where w: "?w = weights ev0 @ [rnd ?x] @ weights ev1 @ [t]"
      using b(4) by blast
    show ?thesis
      using True d by (simp add: b(1,2,3) w nat_add_distrib)
  next
    case False
    then have lt: "total_weight ev1 < total_weight ev0" using assms(3) by simp
    then have d: "rnd ?x < 0" using assms(4) by (simp add: sgn_if split: if_splits)
    note b = balance_neg [where rnd = rnd and ?ev0.0 = ev0 and ?ev1.0 = ev1, OF assms(1,2) d]
    obtain t where w: "?w = weights ev0 @ weights ev1 @ [- rnd ?x] @ [t]"
      using b(4) by blast
    show ?thesis
      using lt d by (simp add: b(1,2,3) w nat_add_distrib)
  qed
  then have gap: "?gap = sum_list (weights ev0) - sum_list (weights ev1) + rnd ?x" by simp
  have exact: "?gap = rnd ?x - ?x" if "total_is_sum ev0 \<and> total_is_sum ev1"
    using gap that by (simp add: total_is_sum_def)
  have bound: "\<bar>?gap\<bar> \<le> \<bar>?x\<bar> / 2 ^ 53"
    if t: "total_is_sum ev0 \<and> total_is_sum ev1" and r: "rnd = binary64"
  proof -
    have "\<bar>rnd ?x - ?x\<bar> \<le> \<bar>?x\<bar> / 2 ^ 53"
      unfolding r by (rule binary64_error)
    then show ?thesis by (simp only: exact [OF t])
  qed
  have zero: "(?gap = 0) = (rnd ?x = ?x)" if "total_is_sum ev0 \<and> total_is_sum ev1"
    using exact [OF that] by simp
  show ?thesis
    unfolding Let_def balance_weightdiff compute_rnd_keeps_counts
    using main exact zero bound by blast
qed

theorem padding_goes_to_lighter_side_witness:
  "\<not> norm_m fresh_EMD \<and> \<not> external_dists_m fresh_EMD
   \<and> total_weight event_0_03 \<noteq> total_weight event_0_29
   \<and> sgn (binary64 (total_weight event_0_29 - total_weight event_0_03))
       = sgn (total_weight event_0_29 - total_weight event_0_03)
   \<and> extra_m (compute_balance_rnd binary64 fresh_EMD event_0_03 event_0_29) = Zero
   \<and> n0_m (compute_balance_rnd binary64 fresh_EMD event_0_03 event_0_29) = 2
   \<and> n1_m (compute_balance_rnd binary64 fresh_EMD event_0_03 event_0_29) = 1
   \<and> take 3 (weights_m (network_simplex_m
         (compute_balance_rnd binary64 fresh_EMD event_0_03 event_0_29)))
       = [1080863910568919 / 2 ^ 55, 1170935903116329 / 2 ^ 52, 5224175567749775 / 2 ^ 54]
   \<and> extra_m (compute_rnd binary64 keep_dists (fixed_cost_solver Success 1) fresh_EMD
         event_0_03 event_0_29) = Zero
   \<and> extra_m (compute_balance_rnd binary64 fresh_EMD event_0_29 event_0_03) = One
   \<and> n0_m (compute_balance_rnd binary64 fresh_EMD event_0_29 event_0_03) = 1
   \<and> n1_m (compute_balance_rnd binary64 fresh_EMD event_0_29 event_0_03) = 2
   \<and> take 3 (weights_m (network_simplex_m
         (compute_balance_rnd binary64 fresh_EMD event_0_29 event_0_03)))
       = [5224175567749775 / 2 ^ 54, 1080863910568919 / 2 ^ 55, 1170935903116329 / 2 ^ 52]"
proof -
  note e = rounding_example_events
  have ne: "total_weight event_0_03 \<noteq> total_weight event_0_29"
    "total_weight event_0_29 \<noteq> total_weight event_0_03"
    by (simp_all add: e)
  have sg: "sgn (binary64 (total_weight event_0_29 - total_weight event_0_03))
       = sgn (total_weight event_0_29 - total_weight event_0_03)"
    "sgn (binary64 (total_weight event_0_03 - total_weight event_0_29))
       = sgn (total_weight event_0_03 - total_weight event_0_29)"
    by (rule binary64_sgn)+
  have d: "binary64 (total_weight event_0_29 - total_weight event_0_03)
      = 1170935903116329 / 4503599627370496"
    "binary64 (total_weight event_0_03 - total_weight event_0_29)
      = - (1170935903116329 / 4503599627370496)"
    by (simp_all only: e binary64_examples)
  have lt: "total_weight event_0_03 < total_weight event_0_29" by (simp add: e)
  have a: "extra_m (compute_balance_rnd binary64 fresh_EMD event_0_03 event_0_29) = Zero
   \<and> n0_m (compute_balance_rnd binary64 fresh_EMD event_0_03 event_0_29) = 2
   \<and> n1_m (compute_balance_rnd binary64 fresh_EMD event_0_03 event_0_29) = 1
   \<and> take 3 (weights_m (network_simplex_m
         (compute_balance_rnd binary64 fresh_EMD event_0_03 event_0_29)))
       = [1080863910568919 / 2 ^ 55, 1170935903116329 / 2 ^ 52, 5224175567749775 / 2 ^ 54]
   \<and> extra_m (compute_rnd binary64 keep_dists (fixed_cost_solver Success 1) fresh_EMD
         event_0_03 event_0_29) = Zero"
    using padding_goes_to_lighter_side [where rnd = binary64 and s = fresh_EMD and ?ev0.0 = event_0_03
        and ?ev1.0 = event_0_29 and fill = keep_dists and solve = "fixed_cost_solver Success 1",
        OF fresh_EMD_flags ne(1) sg(1)] lt
    unfolding Let_def d by (auto simp add: e)
  have b: "extra_m (compute_balance_rnd binary64 fresh_EMD event_0_29 event_0_03) = One
   \<and> n0_m (compute_balance_rnd binary64 fresh_EMD event_0_29 event_0_03) = 1
   \<and> n1_m (compute_balance_rnd binary64 fresh_EMD event_0_29 event_0_03) = 2
   \<and> take 3 (weights_m (network_simplex_m
         (compute_balance_rnd binary64 fresh_EMD event_0_29 event_0_03)))
       = [5224175567749775 / 2 ^ 54, 1080863910568919 / 2 ^ 55, 1170935903116329 / 2 ^ 52]"
    using padding_goes_to_lighter_side [where rnd = binary64 and s = fresh_EMD and ?ev0.0 = event_0_29
        and ?ev1.0 = event_0_03 and fill = keep_dists and solve = "fixed_cost_solver Success 1",
        OF fresh_EMD_flags ne(2) sg(2)] lt
    unfolding Let_def d by (auto simp add: e)
  show ?thesis using fresh_EMD_flags ne(1) sg(1) a b by simp
qed

text \<open>
  C1 as stated fails in double precision. Let A have the one weight 0.03 and B the one
  weight 0.29. The padding weight is the double nearest to the difference of the two
  doubles, and the padded side of A then sums to more than side B: by \<open>2^-55\<close> in exact
  addition, and to the next double above 0.29 (0.29000000000000004) when the sum is
  accumulated in floating point.
\<close>

theorem padded_totals_differ_in_double_precision_counterexample:
  "\<not> norm_m fresh_EMD \<and> \<not> external_dists_m fresh_EMD
   \<and> total_weight event_0_03 \<noteq> total_weight event_0_29
   \<and> total_is_sum event_0_03 \<and> total_is_sum event_0_29
   \<and> rounded_sum binary64 (weights event_0_03) = total_weight event_0_03
   \<and> rounded_sum binary64 (weights event_0_29) = total_weight event_0_29
   \<and> (let s' = compute_balance_rnd binary64 fresh_EMD event_0_03 event_0_29;
           w = weights_m (network_simplex_m s');
           sideA = take (nat (n0_m s')) w;
           sideB = take (nat (n1_m s')) (drop (nat (n0_m s')) w)
       in sideA = [1080863910568919 / 2 ^ 55, 1170935903116329 / 2 ^ 52]
        \<and> sideB = [5224175567749775 / 2 ^ 54]
        \<and> sum_list sideA - sum_list sideB = 1 / 2 ^ 55
        \<and> sum_list sideA \<noteq> sum_list sideB
        \<and> rounded_sum binary64 sideA = 5224175567749776 / 2 ^ 54
        \<and> rounded_sum binary64 sideB = 5224175567749775 / 2 ^ 54
        \<and> rounded_sum binary64 sideA \<noteq> rounded_sum binary64 sideB)"
proof -
  note e = rounding_example_events
  have d: "binary64 (total_weight event_0_29 - total_weight event_0_03)
      = 1170935903116329 / 4503599627370496"
    by (simp only: e binary64_examples)
  have p: "0 < binary64 (total_weight event_0_29 - total_weight event_0_03)"
    unfolding d by simp
  note b = balance_pos [where rnd = binary64 and s = fresh_EMD and ?ev0.0 = event_0_03
      and ?ev1.0 = event_0_29, OF fresh_EMD_flags p]
  obtain t where w: "weights_m (network_simplex_m
        (compute_balance_rnd binary64 fresh_EMD event_0_03 event_0_29))
      = [1080863910568919 / 36028797018963968, 1170935903116329 / 4503599627370496,
         5224175567749775 / 18014398509481984, t]"
    using b(4) unfolding d by (auto simp add: e)
  have n: "n0_m (compute_balance_rnd binary64 fresh_EMD event_0_03 event_0_29) = 2"
    "n1_m (compute_balance_rnd binary64 fresh_EMD event_0_03 event_0_29) = 1"
    using b(2,3) by (simp_all add: e)
  have r: "rounded_sum binary64
        [1080863910568919 / 36028797018963968, 1170935903116329 / 4503599627370496]
      = 326510972984361 / 1125899906842624"
    "rounded_sum binary64 [5224175567749775 / 18014398509481984]
      = 5224175567749775 / 18014398509481984"
    "rounded_sum binary64 [1080863910568919 / 36028797018963968]
      = 1080863910568919 / 36028797018963968"
    by (simp_all add: rounded_sum_def binary64_examples)
  have t: "total_is_sum event_0_03" "total_is_sum event_0_29"
    by (simp_all add: total_is_sum_def e)
  show ?thesis
    using fresh_EMD_flags t
    by (simp add: Let_def w n r e numeral_2_eq_2)
qed

text \<open>
  C2: with \<open>norm\<close> off, the solver receives the balanced buffer with every weight
  divided by \<open>scale = max (total A) (total B)\<close>, and the stored distance is the
  solver's cost times that scale exactly when the status is \<open>Success\<close> (the raw cost
  otherwise). With \<open>norm\<close> on, the buffer is handed over unscaled, the scale member is
  untouched and the stored distance is the solver's cost.
\<close>

theorem cost_is_rescaled_on_success:
  "let b = compute_balance s ev0 ev1;
       pre = compute_dists fill (compute_scale b ev0 ev1) ev0 ev1;
       st = fst (solve (network_simplex_m pre) (n0_m pre) (n1_m pre));
       ns = snd (solve (network_simplex_m pre) (n0_m pre) (n1_m pre));
       sc = max (total_weight ev0) (total_weight ev1);
       r = compute fill solve s ev0 ev1
   in status_m r = st
    \<and> (\<not> norm_m s \<longrightarrow>
          weights_m (network_simplex_m pre) = map (\<lambda>w. w / sc) (weights_m (network_simplex_m b))
        \<and> scale_m r = sc
        \<and> (st = Success \<longrightarrow> emd_m r = total_cost_m ns * sc)
        \<and> (st \<noteq> Success \<longrightarrow> emd_m r = total_cost_m ns))
    \<and> (norm_m s \<longrightarrow>
          weights_m (network_simplex_m pre) = weights_m (network_simplex_m b)
        \<and> scale_m r = scale_m s
        \<and> emd_m r = total_cost_m ns)"
proof -
  have n: "norm_m (compute_balance s ev0 ev1) = norm_m s"
    "scale_m (compute_balance s ev0 ev1) = scale_m s"
    by (simp_all add: compute_balance_def compute_balance_rnd_def set_weights_def Let_def)
  show ?thesis
    by (simp add: Let_def compute_def compute_solve_def compute_solve_rnd_def compute_dists_def compute_scale_def compute_scale_rnd_def
        set_weights_def n split: prod.splits)
qed

theorem cost_is_rescaled_on_success_witness:
  "\<not> norm_m fresh_EMD
   \<and> emd_m (compute keep_dists (fixed_cost_solver Success (5 / 2)) fresh_EMD
        light_event heavy_event) = 5
   \<and> emd_m (compute keep_dists (fixed_cost_solver Infeasible (5 / 2)) fresh_EMD
        light_event heavy_event) = 5 / 2
   \<and> norm_m (fresh_EMD\<lparr>norm_m := True\<rparr>)
   \<and> emd_m (compute keep_dists (fixed_cost_solver Success (5 / 2)) (fresh_EMD\<lparr>norm_m := True\<rparr>)
        light_event heavy_event) = 5 / 2"
proof -
  have h: "\<not> norm_m fresh_EMD"
    by (simp add: fresh_EMD_def raw_EMD_def EMD_ctor_def set_external_dists_def Let_def)
  have t: "max (total_weight light_event) (total_weight heavy_event) = 2"
    by (simp add: light_event_def heavy_event_def)
  show ?thesis
    using h t
      cost_is_rescaled_on_success [of fresh_EMD light_event heavy_event keep_dists
        "fixed_cost_solver Success (5 / 2)"]
      cost_is_rescaled_on_success [of fresh_EMD light_event heavy_event keep_dists
        "fixed_cost_solver Infeasible (5 / 2)"]
      cost_is_rescaled_on_success [of "fresh_EMD\<lparr>norm_m := True\<rparr>" light_event heavy_event
        keep_dists "fixed_cost_solver Success (5 / 2)"]
    by (auto simp add: Let_def fixed_cost_solver_def)
qed

text \<open>
  C9: \<open>flow i j\<close> adds \<open>n0\<close> to a negative row index and \<open>n1\<close> to a negative column
  index. If the resolved pair lies outside \<open>[0, n0) \<times> [0, n1)\<close> the lookup raises the
  out-of-range error; otherwise it equals the lookup at the resolved pair, which is
  the solver's raw flow at the row-major position \<open>i * n1 + j\<close> times \<open>scale\<close>. On an
  \<open>n0 = 3\<close>, \<open>n1 = 4\<close> solver, \<open>flow (-1) (-1)\<close> is \<open>flow 2 3\<close> and \<open>flow 3 0\<close> raises.
\<close>

theorem flow_wraps_negative_indices_and_checks_range:
  "let ri = (if i < 0 then i + n0_m s else i);
       rj = (if j < 0 then j + n1_m s else j)
   in (ri < 0 \<or> n0_m s \<le> ri \<or> rj < 0 \<or> n1_m s \<le> rj \<longrightarrow>
         flow i j s = Inl (OutOfRange ''EMD::flow - Indices out of range''))
    \<and> (0 \<le> ri \<and> ri < n0_m s \<and> 0 \<le> rj \<and> rj < n1_m s \<longrightarrow>
         flow i j s = flow ri rj s
       \<and> flow i j s = flow_raw (nat (ri * n1_m s + rj)) s
       \<and> (nat (n0_m s * n1_m s) \<le> length (flows_m (network_simplex_m s)) \<longrightarrow>
            flow i j s = Inr (flows_m (network_simplex_m s) ! nat (ri * n1_m s + rj) * scale_m s)))
    \<and> (n0_m s = 3 \<and> n1_m s = 4 \<longrightarrow>
         flow (- 1) (- 1) s = flow 2 3 s
       \<and> flow 3 0 s = Inl (OutOfRange ''EMD::flow - Indices out of range''))"
proof -
  have bound: "nat (a * n1_m s + b) < length (flows_m (network_simplex_m s))"
    if "0 \<le> a" "a < n0_m s" "0 \<le> b" "b < n1_m s"
      "nat (n0_m s * n1_m s) \<le> length (flows_m (network_simplex_m s))" for a b
  proof -
    have "a * n1_m s + b < (a + 1) * n1_m s" using that by (simp add: algebra_simps)
    also have "\<dots> \<le> n0_m s * n1_m s" using that by (intro mult_right_mono) auto
    finally have lt: "a * n1_m s + b < n0_m s * n1_m s" .
    have "0 \<le> a * n1_m s" using that by (intro mult_nonneg_nonneg) auto
    then have "0 \<le> a * n1_m s + b" using that by linarith
    then have "nat (a * n1_m s + b) < nat (n0_m s * n1_m s)"
      using lt by (simp add: nat_less_eq_zless)
    then show ?thesis using that(5) by linarith
  qed
  show ?thesis
    using bound [of "if i < 0 then i + n0_m s else i" "if j < 0 then j + n1_m s else j"]
    by (auto simp add: flow_def flow_raw_def Let_def)
qed

theorem flow_wraps_negative_indices_and_checks_range_witness:
  "n0_m solver_3x4 = 3 \<and> n1_m solver_3x4 = 4
   \<and> flow (- 1) (- 1) solver_3x4 = flow 2 3 solver_3x4
   \<and> flow (- 1) (- 1) solver_3x4 = Inr 22
   \<and> flow 3 0 solver_3x4 = Inl (OutOfRange ''EMD::flow - Indices out of range'')
   \<and> flow (- 4) 0 solver_3x4 = Inl (OutOfRange ''EMD::flow - Indices out of range'')"
proof -
  have h: "n0_m solver_3x4 = 3" "n1_m solver_3x4 = 4" "scale_m solver_3x4 = 2"
    "flows_m (network_simplex_m solver_3x4) = [0, 1, 2, 3, 4, 5, 6, 7, 8, 9, 10, 11, 0]"
    by (simp_all add: solver_3x4_def)
  show ?thesis
    using h flow_wraps_negative_indices_and_checks_range [of "- 1" solver_3x4 "- 1"]
      flow_wraps_negative_indices_and_checks_range [of "- 4" solver_3x4 0]
    by (auto simp add: Let_def)
qed

section \<open>Properties of the batch engine\<close>

subsection \<open>The triangular enumeration\<close>

lemma sdiv_nonneg: "0 \<le> k \<Longrightarrow> 0 < n \<Longrightarrow> (k::int) sdiv n = k div n"
  by (cases "k = 0") (simp_all add: signed_divide_int_def sgn_if)

lemma smod_nonneg: "0 \<le> k \<Longrightarrow> 0 < n \<Longrightarrow> (k::int) smod n = k mod n"
  by (cases "k = 0") (simp_all add: signed_modulo_int_def sgn_if)

lemma twice_pairs: "0 \<le> (N::int) \<Longrightarrow> 2 * ((N * (N - 1)) sdiv 2) = N * (N - 1)"
proof -
  assume n: "0 \<le> N"
  have e: "even (N * (N - 1))" by simp
  have "0 \<le> N * (N - 1)"
  proof (cases "N = 0")
    case False then show ?thesis using n by (intro mult_nonneg_nonneg) auto
  qed simp
  then have "(N * (N - 1)) sdiv 2 = (N * (N - 1)) div 2" by (simp add: sdiv_nonneg)
  then show ?thesis using e by simp
qed

lemma symmetric_pair_div_mod:
  assumes "0 \<le> k" "0 < N"
  shows "symmetric_pair N N k =
    (if k div N + 1 \<le> k mod N then (N - (k div N + 1), N - k mod N - 1)
     else (k div N + 1, k mod N))"
  using assms by (simp add: symmetric_pair_def Let_def sdiv_nonneg smod_nonneg)

lemma row_bound:
  assumes k: "0 \<le> k" "k < (N * (N - 1)) sdiv 2" and N: "0 < (N::int)"
  shows "2 * (k div N) + 2 \<le> N"
proof (rule ccontr)
  assume "\<not> 2 * (k div N) + 2 \<le> N"
  then have q: "N - 1 \<le> 2 * (k div N)" by simp
  have "(N - 1) * N \<le> (2 * (k div N)) * N"
    using q N by (intro mult_right_mono) auto
  moreover have "k div N * N \<le> k"
    using N by (metis add.commute div_mult_mod_eq le_add_same_cancel2 pos_mod_sign)
  moreover have "2 * k < N * (N - 1)"
    using k twice_pairs [of N] N by simp
  ultimately show False by (simp add: algebra_simps)
qed

lemma last_row:
  assumes k: "0 \<le> k" "k < (N * (N - 1)) sdiv 2" and N: "0 < (N::int)"
    and q: "2 * (k div N) + 2 = N"
  shows "k mod N \<le> k div N"
proof -
  define q where "q = k div N"
  define r where "r = k mod N"
  have kqr: "k = q * N + r" by (simp add: q_def r_def)
  have "2 * k < N * (N - 1)" using k twice_pairs [of N] N by simp
  then have a: "2 * (q * N) + 2 * r < N * N - N" unfolding kqr by (simp add: algebra_simps)
  have "2 * q = N - 2" using q by (simp add: q_def)
  then have "(2 * q) * N = (N - 2) * N" by simp
  then have b: "2 * (q * N) = N * N - 2 * N" by (simp add: algebra_simps)
  have "2 * r < N" using a b by linarith
  then have "r \<le> q" using \<open>2 * q = N - 2\<close> by linarith
  then show ?thesis by (simp add: q_def r_def)
qed

lemma symmetric_pair_range:
  assumes k: "0 \<le> k" "k < (N * (N - 1)) sdiv 2" and N: "0 \<le> (N::int)"
  shows "0 \<le> snd (symmetric_pair N N k) \<and> snd (symmetric_pair N N k) < fst (symmetric_pair N N k)
       \<and> fst (symmetric_pair N N k) < N"
proof -
  have N0: "0 < N" using k N by (cases "N = 0") auto
  have r: "0 \<le> k mod N" "k mod N < N" using N0 by simp_all
  have q: "0 \<le> k div N" using k N0 by (simp add: pos_imp_zdiv_nonneg_iff)
  have b: "2 * (k div N) + 2 \<le> N" using row_bound [OF k N0] .
  show ?thesis
    using r q b by (simp add: symmetric_pair_div_mod [OF k(1) N0])
qed

lemma symmetric_pair_inj:
  assumes k: "0 \<le> k" "k < (N * (N - 1)) sdiv 2"
    and k': "0 \<le> k'" "k' < (N * (N - 1)) sdiv 2"
    and N: "0 \<le> (N::int)"
    and eq: "symmetric_pair N N k = symmetric_pair N N k'"
  shows "k = k'"
proof -
  have N0: "0 < N" using k N by (cases "N = 0") auto
  have b: "2 * (k div N) + 2 \<le> N" "2 * (k' div N) + 2 \<le> N"
    using row_bound [OF k N0] row_bound [OF k' N0] .
  have l1: "k mod N \<le> k div N" if "2 * (k div N) + 2 = N"
    using last_row [OF k N0 that] .
  have l2: "k' mod N \<le> k' div N" if "2 * (k' div N) + 2 = N"
    using last_row [OF k' N0 that] .
  have "k div N = k' div N \<and> k mod N = k' mod N"
    using eq b l1 l2
    by (auto simp add: symmetric_pair_div_mod [OF k(1) N0] symmetric_pair_div_mod [OF k'(1) N0]
        split: if_splits)
  then show ?thesis by (metis div_mult_mod_eq)
qed

lemma symmetric_pair_surj:
  assumes ab: "0 \<le> b" "b < a" "a < (N::int)"
  shows "\<exists>k. 0 \<le> k \<and> k < (N * (N - 1)) sdiv 2 \<and> symmetric_pair N N k = (a, b)"
proof -
  have N0: "0 < N" "0 \<le> N" using ab by auto
  let ?M = "(N * (N - 1)) sdiv 2"
  let ?k1 = "(a - 1) * N + b"
  let ?k2 = "(N - a - 1) * N + (N - b - 1)"
  have M: "2 * ?M = N * (N - 1)" using twice_pairs [OF N0(2)] .
  have sum: "?k1 + ?k2 = 2 * ?M - 1" unfolding M by (simp add: algebra_simps)
  have k1: "0 \<le> ?k1" using ab N0 by (intro add_nonneg_nonneg mult_nonneg_nonneg) auto
  have k2: "0 \<le> ?k2" using ab N0 by (intro add_nonneg_nonneg mult_nonneg_nonneg) auto
  have dm1: "?k1 div N = a - 1" "?k1 mod N = b" using ab N0 by simp_all
  have dm2: "?k2 div N = N - a - 1" "?k2 mod N = N - b - 1" using ab N0 by simp_all
  show ?thesis
  proof (cases "?k1 < ?M")
    case True
    have "symmetric_pair N N ?k1 = (a, b)"
      using ab by (simp add: symmetric_pair_div_mod [OF k1 N0(1)] dm1)
    then show ?thesis using k1 True by blast
  next
    case False
    then have lt: "?k2 < ?M" using sum by linarith
    have "symmetric_pair N N ?k2 = (a, b)"
      using ab by (simp add: symmetric_pair_div_mod [OF k2 N0(1)] dm2)
    then show ?thesis using k2 lt by blast
  qed
qed

text \<open>
  C3: for \<open>N \<ge> 0\<close> events the triangular enumeration (\<open>i = k div N\<close>, \<open>j = k mod N\<close>,
  increment \<open>i\<close>, and if \<open>j \<ge> i\<close> replace \<open>i\<close> by \<open>N - i\<close> and \<open>j\<close> by \<open>N - j - 1\<close>) maps the
  flat indices \<open>0 \<le> k < N (N - 1) / 2\<close> one-to-one onto the unordered pairs of distinct
  indices below \<open>N\<close>, written as the two-element sets \<open>{i, j}\<close> with \<open>i < j < N\<close>. For
  \<open>N = 5\<close> the ten flat indices give the ten pairs, as the example after it lists.
\<close>

theorem symmetric_enumeration_is_bijection:
  assumes N: "0 \<le> (N::int)"
  shows "bij_betw (\<lambda>k. {fst (symmetric_pair N N k), snd (symmetric_pair N N k)})
           {0 ..< (N * (N - 1)) sdiv 2}
           {{i, j} |i j. 0 \<le> i \<and> i < j \<and> j < N}"
proof -
  let ?M = "(N * (N - 1)) sdiv 2"
  let ?f = "\<lambda>k. {fst (symmetric_pair N N k), snd (symmetric_pair N N k)}"
  have inj: "inj_on ?f {0 ..< ?M}"
  proof (rule inj_onI)
    fix k k' assume kk: "k \<in> {0 ..< ?M}" "k' \<in> {0 ..< ?M}" and e: "?f k = ?f k'"
    have r: "snd (symmetric_pair N N k) < fst (symmetric_pair N N k)"
      "snd (symmetric_pair N N k') < fst (symmetric_pair N N k')"
      using symmetric_pair_range [of k N] symmetric_pair_range [of k' N] kk N by auto
    have "symmetric_pair N N k = symmetric_pair N N k'"
      using e r by (auto simp add: doubleton_eq_iff prod_eq_iff)
    then show "k = k'" using symmetric_pair_inj [of k N k'] kk N by auto
  qed
  have img: "?f ` {0 ..< ?M} = {{i, j} |i j. 0 \<le> i \<and> i < j \<and> j < N}"
  proof (intro set_eqI iffI)
    fix u assume "u \<in> ?f ` {0 ..< ?M}"
    then obtain k where k: "0 \<le> k" "k < ?M" and u: "u = ?f k" by auto
    have "0 \<le> snd (symmetric_pair N N k) \<and> snd (symmetric_pair N N k) < fst (symmetric_pair N N k)
       \<and> fst (symmetric_pair N N k) < N"
      using symmetric_pair_range [OF k N] .
    then show "u \<in> {{i, j} |i j. 0 \<le> i \<and> i < j \<and> j < N}"
      unfolding u by (auto simp add: insert_commute)
  next
    fix u assume "u \<in> {{i, j} |i j. 0 \<le> i \<and> i < j \<and> j < N}"
    then obtain i j where ij: "0 \<le> i" "i < j" "j < N" and u: "u = {i, j}" by auto
    obtain k where k: "0 \<le> k" "k < ?M" "symmetric_pair N N k = (j, i)"
      using symmetric_pair_surj [OF ij] by blast
    have "?f k = u" using k(3) u by (simp add: insert_commute)
    then show "u \<in> ?f ` {0 ..< ?M}" using k(1,2) by force
  qed
  show ?thesis using inj img by (simp add: bij_betw_def)
qed

theorem symmetric_enumeration_is_bijection_witness:
  "(0::int) \<le> 5
   \<and> bij_betw (\<lambda>k. {fst (symmetric_pair 5 5 k), snd (symmetric_pair 5 5 k)})
        {0 ..< 10} {{i, j} |i j. 0 \<le> i \<and> i < j \<and> j < 5}
   \<and> map (symmetric_pair 5 5) [0, 1, 2, 3, 4, 5, 6, 7, 8, 9]
       = [(1, 0), (4, 3), (4, 2), (4, 1), (4, 0), (2, 0), (2, 1), (3, 2), (3, 1), (3, 0)]"
proof -
  have "(5 * (5 - 1)) sdiv 2 = (10::int)" by (simp add: sdiv_nonneg)
  then show ?thesis
    using symmetric_enumeration_is_bijection [of 5]
    by (simp add: symmetric_pair_def sdiv_nonneg smod_nonneg Let_def)
qed

subsection \<open>Request mode\<close>

lemma on_success_Inr [simp]: "on_success (Inr x) f = f x"
  by (simp add: on_success_def)

lemma on_success_Inl [simp]: "on_success (Inl e) f = Inl e"
  by (simp add: on_success_def)

lemma pairs_nonneg:
  assumes "0 \<le> (N::int)"
  shows "0 \<le> (N * (N - 1)) sdiv 2"
proof -
  have "0 \<le> N * (N - 1)"
  proof (cases "N = 0")
    case False
    then show ?thesis using assms by (intro mult_nonneg_nonneg) auto
  qed simp
  then show ?thesis using twice_pairs [OF assms] by linarith
qed

lemma reserve_nonneg: "0 \<le> n \<Longrightarrow> reserve n = Inr ()"
  by (simp add: reserve_def)

lemma resize_to_nonneg: "0 \<le> n \<Longrightarrow> resize_to n xs = Inr (resize (nat n) xs)"
  by (simp add: resize_to_def)

text \<open>For counts that are not negative neither \<open>init\<close> raises.\<close>

lemma init_self_nonneg:
  assumes "0 \<le> nev"
  shows "init_self nev s =
    (let s1 = (if \<not> request_mode_m s then clear False s else s);
         s2 = s1\<lparr>nevA_m := nev, nevB_m := nev\<rparr>;
         s3 = s2\<lparr>two_event_sets_m := False\<rparr>;
         s4 = s3\<lparr>num_emds_m := (nev * (nev - 1)) sdiv 2\<rparr>
     in if \<not> have_external_emd_handler s4 \<and> \<not> request_mode_m s4 then
          let s5 = s4\<lparr>emd_storage_m :=
                      (if store_sym_emds_flattened_m s4 then FlattenedSymmetric
                       else FullSymmetric)\<rparr>
          in Inr (s5\<lparr>emds_m := resize
                     (nat (if emd_storage_m s5 = FullSymmetric then nevA_m s5 * nevB_m s5
                           else num_emds_m s5))
                     (emds_m s5)\<rparr>)
        else Inr s4)"
  using assms pairs_nonneg [OF assms] zero_le_square [of nev]
  by (simp add: init_self_def Let_def reserve_nonneg resize_to_nonneg)

lemma init_pairs_nonneg:
  assumes "0 \<le> nevA" "0 \<le> nevB"
  shows "init_pairs nevA nevB s =
    (let s1 = (if \<not> request_mode_m s then clear False s else s);
         s2 = s1\<lparr>nevA_m := nevA, nevB_m := nevB\<rparr>;
         s3 = s2\<lparr>two_event_sets_m := True\<rparr>;
         s4 = s3\<lparr>num_emds_m := nevA * nevB\<rparr>
     in if \<not> have_external_emd_handler s4 \<and> \<not> request_mode_m s4 then
          let s5 = s4\<lparr>emd_storage_m := Full\<rparr>
          in Inr (s5\<lparr>emds_m := resize (nat (num_emds_m s5)) (emds_m s5)\<rparr>)
        else Inr s4)"
  using assms mult_nonneg_nonneg [OF assms]
  by (simp add: init_pairs_def Let_def reserve_nonneg resize_to_nonneg)

lemma fresh_PairwiseEMD_fields:
  "request_mode_m (fresh_PairwiseEMD flat throw pe) = False"
  "handler_m (fresh_PairwiseEMD flat throw pe) = None"
  "store_sym_emds_flattened_m (fresh_PairwiseEMD flat throw pe) = flat"
  "throw_on_error_m (fresh_PairwiseEMD flat throw pe) = throw"
  "print_every_m (fresh_PairwiseEMD flat throw pe) = (if pe = 0 then - 1 else pe)"
  "emd_objs_m (fresh_PairwiseEMD flat throw pe) = [fresh_EMD]"
  "events_m (fresh_PairwiseEMD flat throw pe) = []"
  "emds_m (fresh_PairwiseEMD flat throw pe) = []"
  "full_emds_m (fresh_PairwiseEMD flat throw pe) = []"
  "error_messages_m (fresh_PairwiseEMD flat throw pe) = []"
  "emd_storage_m (fresh_PairwiseEMD flat throw pe) = External"
  "nevA_m (fresh_PairwiseEMD flat throw pe) = 0"
  "nevB_m (fresh_PairwiseEMD flat throw pe) = 0"
  "num_emds_m (fresh_PairwiseEMD flat throw pe) = 0"
  "emd_counter_m (fresh_PairwiseEMD flat throw pe) = 0"
  "num_threads_m (fresh_PairwiseEMD flat throw pe) = 1"
  by (simp_all add: fresh_PairwiseEMD_def PairwiseEMD_ctor_def pw_setup_def clear_def
      set_omp_dynamic_chunksize_def determine_num_threads_def raw_PairwiseEMD_def Let_def
      fresh_EMD_def EMD_ctor_def set_external_dists_def raw_EMD_def)

text \<open>
  C8, as amended: in request mode \<open>compute\<close> raises its runtime error before any pair
  is dispatched, whereas request mode makes neither \<open>init\<close> raise: called with event
  counts that are not negative, each returns normally, skips the clearing of the
  previous batch and the allocation of the result store, and records the sizes, the
  number of pairs and the input mode. The one failure of \<open>init\<close> is that of the
  reservation of the event store, which raises a length error when the count of
  events to reserve (\<open>nev\<close>, or \<open>nevA + nevB\<close>) is negative.
\<close>

theorem request_mode_compute_raises_init_returns:
  "request_mode_m s \<longrightarrow>
     pw_compute fill solve s
       = Some (Inl (RuntimeError ''cannot compute pairwise EMDs in request mode''))
   \<and> init_self nev s
       = (if nev < 0 then Inl LengthError
          else Inr (s\<lparr>nevA_m := nev, nevB_m := nev, two_event_sets_m := False,
                      num_emds_m := (nev * (nev - 1)) sdiv 2\<rparr>))
   \<and> init_pairs nevA nevB s
       = (if nevA + nevB < 0 then Inl LengthError
          else Inr (s\<lparr>nevA_m := nevA, nevB_m := nevB, two_event_sets_m := True,
                      num_emds_m := nevA * nevB\<rparr>))"
  by (simp add: pw_compute_def init_self_def init_pairs_def reserve_def Let_def)

theorem request_mode_compute_raises_init_returns_witness:
  "request_mode_m (set_request_mode True (fresh_PairwiseEMD True False (- 10)))
   \<and> pw_compute keep_dists (fixed_cost_solver Success 1)
        (set_request_mode True (fresh_PairwiseEMD True False (- 10)))
       = Some (Inl (RuntimeError ''cannot compute pairwise EMDs in request mode''))
   \<and> init_self 3 (set_request_mode True (fresh_PairwiseEMD True False (- 10)))
       = Inr ((set_request_mode True (fresh_PairwiseEMD True False (- 10)))
               \<lparr>nevA_m := 3, nevB_m := 3, two_event_sets_m := False, num_emds_m := 3\<rparr>)
   \<and> init_pairs 2 3 (set_request_mode True (fresh_PairwiseEMD True False (- 10)))
       = Inr ((set_request_mode True (fresh_PairwiseEMD True False (- 10)))
               \<lparr>nevA_m := 2, nevB_m := 3, two_event_sets_m := True, num_emds_m := 6\<rparr>)
   \<and> init_self (- 1) (set_request_mode True (fresh_PairwiseEMD True False (- 10)))
       = Inl LengthError"
proof -
  have h: "request_mode_m (set_request_mode True (fresh_PairwiseEMD True False (- 10)))"
    by (simp add: set_request_mode_def)
  have n: "(3 * (3 - 1)) sdiv 2 = (3::int)" by (simp add: signed_divide_int_def)
  show ?thesis
    using h n
      request_mode_compute_raises_init_returns
        [of "set_request_mode True (fresh_PairwiseEMD True False (- 10))"
            keep_dists "fixed_cost_solver Success 1" 3 2 3]
      request_mode_compute_raises_init_returns
        [of "set_request_mode True (fresh_PairwiseEMD True False (- 10))"
            keep_dists "fixed_cost_solver Success 1" "- 1" 0 0]
    by simp
qed

text \<open>
  C8 as stated fails: in request mode both \<open>init\<close> methods, called with the sizes of
  actual event collections, return without an error.
\<close>

theorem init_in_request_mode_counterexample:
  "request_mode_m (set_request_mode True (fresh_PairwiseEMD True False (- 10)))
   \<and> \<not> isl (init_self 3 (set_request_mode True (fresh_PairwiseEMD True False (- 10))))
   \<and> \<not> isl (init_pairs 2 3 (set_request_mode True (fresh_PairwiseEMD True False (- 10))))"
  by (simp add: set_request_mode_def init_self_def init_pairs_def reserve_def Let_def)

subsection \<open>Dispatch of one pair\<close>

lemma on_success_eq_Inr:
  "on_success m f = Inr y \<longleftrightarrow> (\<exists>x. m = Inr x \<and> f x = Inr y)"
  by (cases m) simp_all

lemma vec_get_eq_Inr:
  "vec_get xs i = Inr x \<longleftrightarrow> 0 \<le> i \<and> i < int (length xs) \<and> x = xs ! nat i"
  by (auto simp add: vec_get_def)

lemma vec_set_eq_Inr:
  "vec_set xs i v = Inr ys \<longleftrightarrow> 0 \<le> i \<and> i < int (length xs) \<and> ys = xs[nat i := v]"
  by (auto simp add: vec_set_def)

lemma call_handler_eq_Inr:
  "call_handler d w s = Inr s' \<longleftrightarrow>
     (\<exists>calls. handler_m s = Some calls \<and> s' = s\<lparr>handler_m := Some (calls @ [(d, w)])\<rparr>)"
  by (auto simp add: call_handler_def split: option.splits)

lemma run_pair_eq_Inr:
  "run_pair fill solve i j eventA eventB s = Inr (obj, s1) \<longleftrightarrow>
     emd_objs_m s \<noteq> []
     \<and> obj = compute fill solve (emd_objs_m s ! 0) eventA eventB
     \<and> s1 = s\<lparr>emd_objs_m := (emd_objs_m s)[0 := obj],
              error_messages_m := error_messages_m s
                @ (if status_m obj = Success then [] else [failure_message (status_m obj) i j])\<rparr>"
  by (auto simp add: run_pair_def on_success_eq_Inr vec_get_eq_Inr record_failure_def Let_def)


lemma three_sdiv: "(3 * (3 - 1)) sdiv 2 = (3::int)"
  by (simp add: signed_divide_int_def)

lemma loaded_self_fields:
  "request_mode_m (loaded_self flat throw pe) = False"
  "handler_m (loaded_self flat throw pe) = None"
  "throw_on_error_m (loaded_self flat throw pe) = throw"
  "print_every_m (loaded_self flat throw pe) = (if pe = 0 then - 1 else pe)"
  "emd_objs_m (loaded_self flat throw pe) = [fresh_EMD]"
  "events_m (loaded_self flat throw pe) = three_events"
  "emds_m (loaded_self flat throw pe) = (if flat then [0, 0, 0] else [0, 0, 0, 0, 0, 0, 0, 0, 0])"
  "full_emds_m (loaded_self flat throw pe) = []"
  "error_messages_m (loaded_self flat throw pe) = []"
  "emd_storage_m (loaded_self flat throw pe) = (if flat then FlattenedSymmetric else FullSymmetric)"
  "nevA_m (loaded_self flat throw pe) = 3"
  "nevB_m (loaded_self flat throw pe) = 3"
  "num_emds_m (loaded_self flat throw pe) = 3"
  "emd_counter_m (loaded_self flat throw pe) = 0"
  "two_event_sets_m (loaded_self flat throw pe) = False"
  "num_threads_m (loaded_self flat throw pe) = 1"
  by (simp_all add: loaded_self_def load_events_def init_self_nonneg clear_def Let_def
      have_external_emd_handler_def fresh_PairwiseEMD_fields three_events_def three_sdiv
      resize_def numeral_eq_Suc)

lemma loaded_self_handler_fields:
  "request_mode_m loaded_self_handler = False"
  "handler_m loaded_self_handler = Some []"
  "emd_objs_m loaded_self_handler = [fresh_EMD]"
  "events_m loaded_self_handler = three_events"
  "emds_m loaded_self_handler = []"
  "error_messages_m loaded_self_handler = []"
  "emd_storage_m loaded_self_handler = External"
  "nevA_m loaded_self_handler = 3"
  "nevB_m loaded_self_handler = 3"
  "num_emds_m loaded_self_handler = 3"
  "emd_counter_m loaded_self_handler = 0"
  "two_event_sets_m loaded_self_handler = False"
  "print_every_m loaded_self_handler = 3"
  "throw_on_error_m loaded_self_handler = False"
  by (simp_all add: loaded_self_handler_def load_events_def init_self_nonneg clear_def Let_def
      have_external_emd_handler_def set_external_emd_handler_def fresh_PairwiseEMD_fields
      three_events_def three_sdiv)

lemma compute_fixed_cost:
  "emd_m (compute keep_dists (fixed_cost_solver st c) fresh_EMD ev0 ev1)
     = (if st = Success then c * max (total_weight ev0) (total_weight ev1) else c)"
  "status_m (compute keep_dists (fixed_cost_solver st c) fresh_EMD ev0 ev1) = st"
  by (simp_all add: compute_def compute_solve_def compute_solve_rnd_def compute_dists_def compute_scale_def compute_scale_rnd_def
      compute_balance_def compute_balance_rnd_def set_weights_def fixed_cost_solver_def Let_def
      fresh_EMD_def raw_EMD_def EMD_ctor_def set_external_dists_def)

lemma symmetric_pair_3_0: "symmetric_pair 3 3 0 = (1, 0)"
  by (simp add: symmetric_pair_def Let_def)

lemma show_int_small: "show_int 0 = ''0''" "show_int 1 = ''1''" "show_int 5 = ''5''"
  by (simp_all add: show_int_def show_nat.simps digit_def)

lemma dispatch_infeasible_flat:
  "dispatch keep_dists (fixed_cost_solver Infeasible (5 / 2)) 0 (loaded_self True False (- 10))
    = Inr ((loaded_self True False (- 10))
        \<lparr>emd_objs_m := [compute keep_dists (fixed_cost_solver Infeasible (5 / 2)) fresh_EMD
             heavy_event light_event],
         error_messages_m :=
           [''PairwiseEMD::compute - Issue with EMD between events (1, 0), error code 5''],
         emds_m := [5 / 2, 0, 0]\<rparr>)"
  by (simp add: dispatch_def loaded_self_fields symmetric_pair_3_0 vec_get_def vec_set_def
      three_events_def run_pair_def Let_def record_failure_def compute_fixed_cost
      failure_message_def show_int_small index_symmetric_def signed_divide_int_def)

lemma dispatch_infeasible_handler:
  "dispatch keep_dists (fixed_cost_solver Infeasible (5 / 2)) 0 loaded_self_handler
    = Inr (loaded_self_handler
        \<lparr>emd_objs_m := [compute keep_dists (fixed_cost_solver Infeasible (5 / 2)) fresh_EMD
             heavy_event light_event],
         error_messages_m :=
           [''PairwiseEMD::compute - Issue with EMD between events (1, 0), error code 5''],
         handler_m := Some [(5 / 2, 1)]\<rparr>)"
  by (simp add: dispatch_def loaded_self_handler_fields symmetric_pair_3_0 vec_get_def
      three_events_def run_pair_def Let_def record_failure_def compute_fixed_cost
      failure_message_def show_int_small call_handler_def light_event_def heavy_event_def)


subsection \<open>The loop over the chunks\<close>



lemma dispatch_same_batch:
  assumes "dispatch fill solve k s = Inr s'"
  shows "same_batch s s'"
proof (cases "two_event_sets_m s")
  case True
  then show ?thesis
    using assms
    by (auto simp add: same_batch_def dispatch_def Let_def on_success_eq_Inr vec_get_eq_Inr
        vec_set_eq_Inr run_pair_eq_Inr call_handler_eq_Inr split: if_splits option.splits)
next
  case False
  obtain i j where ij: "symmetric_pair (nevA_m s) (nevB_m s) k = (i, j)" by fastforce
  show ?thesis
    using assms False ij
    by (cases "emd_storage_m s")
      (auto simp add: same_batch_def dispatch_def Let_def on_success_eq_Inr vec_get_eq_Inr
        vec_set_eq_Inr run_pair_eq_Inr call_handler_eq_Inr split: if_splits)
qed



lemma run_chunk_step:
  "k < stop \<Longrightarrow> run_chunk fill solve k stop s
     = on_success (dispatch fill solve k s) (run_chunk fill solve (k + 1) stop)"
  by (subst run_chunk.simps) simp

lemma run_chunk_done: "\<not> k < stop \<Longrightarrow> run_chunk fill solve k stop s = Inr s"
  by (subst run_chunk.simps) simp











lemma compute_solve_fixed_cost:
  "emd_m (compute_solve (fixed_cost_solver st c) s)
     = (if st = Success \<and> \<not> norm_m s then c * scale_m s else c)"
  "status_m (compute_solve (fixed_cost_solver st c) s) = st"
  by (simp_all add: compute_solve_def compute_solve_rnd_def fixed_cost_solver_def Let_def)

lemma compute_pre_norm_scale:
  "norm_m (compute_dists fill (compute_scale (compute_balance s ev0 ev1) ev0 ev1) ev0 ev1)
     = norm_m s"
  "scale_m (compute_dists fill (compute_scale (compute_balance s ev0 ev1) ev0 ev1) ev0 ev1)
     = (if norm_m s then scale_m s else max (total_weight ev0) (total_weight ev1))"
proof -
  have b: "norm_m (compute_balance s ev0 ev1) = norm_m s"
    "scale_m (compute_balance s ev0 ev1) = scale_m s"
    by (simp_all add: compute_balance_def compute_balance_rnd_def set_weights_def Let_def)
  show "norm_m (compute_dists fill (compute_scale (compute_balance s ev0 ev1) ev0 ev1) ev0 ev1)
     = norm_m s"
    "scale_m (compute_dists fill (compute_scale (compute_balance s ev0 ev1) ev0 ev1) ev0 ev1)
     = (if norm_m s then scale_m s else max (total_weight ev0) (total_weight ev1))"
    by (simp_all add: compute_dists_def compute_scale_def compute_scale_rnd_def set_weights_def Let_def b)
qed

lemma compute_fixed_cost_any:
  "emd_m (compute fill (fixed_cost_solver st c) obj ev0 ev1)
     = (if st = Success \<and> \<not> norm_m obj then c * max (total_weight ev0) (total_weight ev1) else c)"
  "status_m (compute fill (fixed_cost_solver st c) obj ev0 ev1) = st"
  by (simp_all add: compute_def compute_solve_fixed_cost compute_pre_norm_scale)

lemma symmetric_pair_3: "symmetric_pair 3 3 0 = (1, 0)" "symmetric_pair 3 3 1 = (2, 1)"
    "symmetric_pair 3 3 2 = (2, 0)"
  by (simp_all add: symmetric_pair_def Let_def sdiv_nonneg smod_nonneg)



lemma run_pair_Inr:
  assumes "emd_objs_m s \<noteq> []"
  shows "run_pair fill solve i j eventA eventB s =
    Inr (compute fill solve (emd_objs_m s ! 0) eventA eventB,
         s\<lparr>emd_objs_m := (emd_objs_m s)[0 := compute fill solve (emd_objs_m s ! 0) eventA eventB],
           error_messages_m := error_messages_m s @
             (if status_m (compute fill solve (emd_objs_m s ! 0) eventA eventB) = Success then []
              else [failure_message (status_m (compute fill solve (emd_objs_m s ! 0) eventA eventB))
                      i j])\<rparr>)"
  using assms by (simp add: run_pair_eq_Inr)

lemma dispatch_self_flattened:
  assumes "\<not> two_event_sets_m s" and "nevB_m s \<noteq> 0"
    and "symmetric_pair (nevA_m s) (nevB_m s) k = (i, j)"
    and "0 \<le> i" "i < int (length (events_m s))" "0 \<le> j" "j < int (length (events_m s))"
    and "emd_objs_m s \<noteq> []"
    and "emd_storage_m s = FlattenedSymmetric"
    and "0 \<le> index_symmetric i j s" "index_symmetric i j s < int (length (emds_m s))"
  shows "dispatch fill solve k s =
    Inr (s\<lparr>emd_objs_m := (emd_objs_m s)
             [0 := compute fill solve (emd_objs_m s ! 0) (events_m s ! nat i) (events_m s ! nat j)],
           error_messages_m := error_messages_m s @
             (if status_m (compute fill solve (emd_objs_m s ! 0) (events_m s ! nat i)
                    (events_m s ! nat j)) = Success then []
              else [failure_message (status_m (compute fill solve (emd_objs_m s ! 0)
                      (events_m s ! nat i) (events_m s ! nat j))) i j]),
           emds_m := (emds_m s)[nat (index_symmetric i j s) :=
                     emd_m (compute fill solve (emd_objs_m s ! 0) (events_m s ! nat i)
                       (events_m s ! nat j))]\<rparr>)"
proof -
  have g: "vec_get (events_m s) i = Inr (events_m s ! nat i)"
    "vec_get (events_m s) j = Inr (events_m s ! nat j)"
    using assms(4-7) by (simp_all add: vec_get_def)
  have ix: "index_symmetric i j (s\<lparr>emd_objs_m := a, error_messages_m := b\<rparr>)
      = index_symmetric i j s" for a b
    by (simp add: index_symmetric_def)
  show ?thesis
    using assms(1,2,9,10,11)
    by (simp add: dispatch_def assms(3) g run_pair_Inr [OF assms(8)] vec_set_def ix)
qed

lemma dispatch_self_full_symmetric:
  assumes "\<not> two_event_sets_m s" and "nevB_m s \<noteq> 0"
    and "symmetric_pair (nevA_m s) (nevB_m s) k = (i, j)"
    and "0 \<le> i" "i < int (length (events_m s))" "0 \<le> j" "j < int (length (events_m s))"
    and "emd_objs_m s \<noteq> []"
    and "emd_storage_m s = FullSymmetric"
    and "0 \<le> j * nevB_m s + i" "j * nevB_m s + i < int (length (emds_m s))"
    and "0 \<le> i * nevB_m s + j" "i * nevB_m s + j < int (length (emds_m s))"
  shows "dispatch fill solve k s =
    Inr (s\<lparr>emd_objs_m := (emd_objs_m s)
             [0 := compute fill solve (emd_objs_m s ! 0) (events_m s ! nat i) (events_m s ! nat j)],
           error_messages_m := error_messages_m s @
             (if status_m (compute fill solve (emd_objs_m s ! 0) (events_m s ! nat i)
                    (events_m s ! nat j)) = Success then []
              else [failure_message (status_m (compute fill solve (emd_objs_m s ! 0)
                      (events_m s ! nat i) (events_m s ! nat j))) i j]),
           emds_m := (emds_m s)[nat (j * nevB_m s + i) :=
                     emd_m (compute fill solve (emd_objs_m s ! 0) (events_m s ! nat i)
                       (events_m s ! nat j)),
                   nat (i * nevB_m s + j) :=
                     emd_m (compute fill solve (emd_objs_m s ! 0) (events_m s ! nat i)
                       (events_m s ! nat j))]\<rparr>)"
proof -
  have g: "vec_get (events_m s) i = Inr (events_m s ! nat i)"
    "vec_get (events_m s) j = Inr (events_m s ! nat j)"
    using assms(4-7) by (simp_all add: vec_get_def)
  show ?thesis
    using assms(1,2,9-13)
    by (simp add: dispatch_def assms(3) g run_pair_Inr [OF assms(8)] vec_set_def)
qed





subsection \<open>Self-distances\<close>

lemma index_symmetric_range:
  assumes ij: "0 \<le> j" "j < i" "i < nevA_m s"
    and num: "num_emds_m s = (nevA_m s * (nevA_m s - 1)) sdiv 2"
  shows "0 \<le> index_symmetric i j s \<and> index_symmetric i j s < num_emds_m s"
    and "index_symmetric j i s = index_symmetric i j s"
proof -
  define N where "N = nevA_m s"
  define m where "m = N - j"
  have m: "2 \<le> m" "0 \<le> m" using ij by (simp_all add: m_def N_def)
  have N: "0 \<le> N" using ij by (simp add: N_def)
  have tN: "2 * ((N * (N - 1)) sdiv 2) = N * (N - 1)" using twice_pairs [OF N] .
  have tm: "2 * ((m * (m - 1)) sdiv 2) = m * (m - 1)" using twice_pairs [OF m(2)] .
  have ix: "index_symmetric i j s = (N * (N - 1)) sdiv 2 - (m * (m - 1)) sdiv 2 + i - j - 1"
    using ij num by (simp add: index_symmetric_def N_def m_def)
  have "N * (N - 1) - m * (m - 1) = j * (2 * m + j - 1)"
    by (simp add: m_def algebra_simps)
  moreover have "0 \<le> j * (2 * m + j - 1)" using ij m by (intro mult_nonneg_nonneg) auto
  ultimately have d: "m * (m - 1) \<le> N * (N - 1)" by linarith
  have "2 * (m - 1) \<le> m * (m - 1)" using m by (intro mult_right_mono) auto
  then have u: "2 * (i - j - 1) < m * (m - 1)" using ij by (simp add: m_def N_def)
  define A where "A = (N * (N - 1)) sdiv 2"
  define B where "B = (m * (m - 1)) sdiv 2"
  have AB: "B \<le> A" "i - j - 1 < B" "0 \<le> i - j - 1"
    using tN tm d u ij by (simp_all add: A_def B_def)
  have "index_symmetric i j s = A - B + i - j - 1" "num_emds_m s = A"
    using ix num by (simp_all add: A_def B_def N_def)
  then show "0 \<le> index_symmetric i j s \<and> index_symmetric i j s < num_emds_m s"
    using AB by simp
  show "index_symmetric j i s = index_symmetric i j s"
    using ij by (simp add: index_symmetric_def)
qed




lemma row_major_bound:
  assumes "0 \<le> (a::int)" "a < N" "0 \<le> b" "b < N"
  shows "0 \<le> a * N + b" "a * N + b < N * N"
proof -
  show "0 \<le> a * N + b" using assms by (intro add_nonneg_nonneg mult_nonneg_nonneg) auto
  have "a * N + b < (a + 1) * N" using assms by (simp add: algebra_simps)
  also have "\<dots> \<le> N * N" using assms by (intro mult_right_mono) auto
  finally show "a * N + b < N * N" .
qed






lemma load_events_Inr: "load_events events s = Inr (projr (load_events events s))"
  by (simp add: load_events_def init_self_nonneg Let_def)



lemma compute_keeps_norm: "norm_m (compute fill solve s ev0 ev1) = norm_m s"
  by (simp add: compute_def compute_solve_def compute_solve_rnd_def compute_pre_norm_scale(1) Let_def
      split: prod.splits)

lemma fresh_EMD_norm: "\<not> norm_m fresh_EMD"
  by (simp add: fresh_EMD_def raw_EMD_def EMD_ctor_def set_external_dists_def Let_def)

lemma example_event_weights:
  "event_weight light_event = 1" "event_weight heavy_event = 1"
  "total_weight light_event = 1" "total_weight heavy_event = 2"
  by (simp_all add: light_event_def heavy_event_def)

lemma three_events_nth:
  "three_events ! 0 = light_event" "three_events ! Suc 0 = heavy_event"
  "three_events ! 2 = light_event" "length three_events = 3"
  by (simp_all add: three_events_def)



subsection \<open>Dispatch in a batch\<close>

lemma load_events_batch_state:
  assumes "\<not> request_mode_m s0" "emd_objs_m s0 \<noteq> []"
  shows "\<exists>s. load_events events s0 = Inr s \<and> batch_state s \<and> handler_m s = handler_m s0
     \<and> \<not> two_event_sets_m s \<and> events_m s = events"
proof -
  let ?N = "int (length events)"
  have p: "0 \<le> (?N * (?N - 1)) sdiv 2" by (rule pairs_nonneg) simp
  have n: "nat (?N * ?N) = length events * length events"
    by (simp add: nat_mult_distrib)
  show ?thesis
    using assms p
    by (cases "handler_m s0"; cases "store_sym_emds_flattened_m s0")
      (simp_all add: load_events_def init_self_nonneg clear_def Let_def batch_state_def
        have_external_emd_handler_def length_resize n)
qed

lemma load_event_sets_batch_state:
  assumes "\<not> request_mode_m s0" "emd_objs_m s0 \<noteq> []"
  shows "\<exists>s. load_event_sets eventsA eventsB s0 = Inr s \<and> batch_state s
     \<and> handler_m s = handler_m s0 \<and> two_event_sets_m s \<and> events_m s = eventsA @ eventsB"
proof -
  have n: "nat (int (length eventsA) * int (length eventsB)) = length eventsA * length eventsB"
    by (simp add: nat_mult_distrib)
  show ?thesis
    using assms
    by (cases "handler_m s0")
      (simp_all add: load_event_sets_def init_pairs_nonneg reserve_def clear_def Let_def batch_state_def
        have_external_emd_handler_def length_resize n)
qed


lemma flat_index_range:
  assumes "0 \<le> k" "k < A * B" "0 \<le> (A::int)" "0 \<le> B"
  shows "0 < B" "0 \<le> k sdiv B" "k sdiv B < A" "0 \<le> k smod B" "k smod B < B"
proof -
  show B: "0 < B"
  proof (rule ccontr)
    assume "\<not> 0 < B"
    then have "B = 0" using assms(4) by simp
    then show False using assms(1,2) by simp
  qed
  have d: "k sdiv B = k div B" "k smod B = k mod B"
    using assms(1) B by (simp_all add: sdiv_nonneg smod_nonneg)
  show "0 \<le> k sdiv B" using assms(1) B by (simp add: d pos_imp_zdiv_nonneg_iff)
  show "0 \<le> k smod B" "k smod B < B" using B by (simp_all add: d)
  have "k div B * B \<le> k"
    using B by (metis add.commute div_mult_mod_eq le_add_same_cancel2 pos_mod_sign)
  then have "k div B * B < A * B" using assms(2) by linarith
  then show "k sdiv B < A" using B by (simp add: d)
qed

lemma dispatch_two_sets:
  assumes "two_event_sets_m s" and "nevB_m s \<noteq> 0"
    and "0 \<le> k sdiv nevB_m s" "k sdiv nevB_m s < int (length (events_m s))"
    and "0 \<le> nevA_m s + k smod nevB_m s"
      "nevA_m s + k smod nevB_m s < int (length (events_m s))"
    and "emd_objs_m s \<noteq> []"
  shows "dispatch fill solve k s =
    (let i = k sdiv nevB_m s; j = k smod nevB_m s;
         eventA = events_m s ! nat i; eventB = events_m s ! nat (nevA_m s + j);
         obj = compute fill solve (emd_objs_m s ! 0) eventA eventB;
         s1 = s\<lparr>emd_objs_m := (emd_objs_m s)[0 := obj],
                error_messages_m := error_messages_m s @
                  (if status_m obj = Success then []
                   else [failure_message (status_m obj) i j])\<rparr>
     in if handler_m s \<noteq> None
        then call_handler (emd_m obj) (event_weight eventA * event_weight eventB) s1
        else on_success (vec_set (emds_m s) k (emd_m obj)) (\<lambda>e. Inr (s1\<lparr>emds_m := e\<rparr>)))"
proof -
  have g: "vec_get (events_m s) (k sdiv nevB_m s) = Inr (events_m s ! nat (k sdiv nevB_m s))"
    "vec_get (events_m s) (nevA_m s + k smod nevB_m s)
       = Inr (events_m s ! nat (nevA_m s + k smod nevB_m s))"
    using assms(3-6) by (simp_all add: vec_get_def)
  show ?thesis
    using assms(1,2)
    by (simp add: dispatch_def Let_def g run_pair_Inr [OF assms(7)])
qed

lemma dispatch_self_handler_call:
  assumes "\<not> two_event_sets_m s" and "nevB_m s \<noteq> 0"
    and "symmetric_pair (nevA_m s) (nevB_m s) k = (i, j)"
    and "0 \<le> i" "i < int (length (events_m s))" "0 \<le> j" "j < int (length (events_m s))"
    and "emd_objs_m s \<noteq> []"
    and "emd_storage_m s = External"
  shows "dispatch fill solve k s =
    call_handler
      (emd_m (compute fill solve (emd_objs_m s ! 0) (events_m s ! nat i) (events_m s ! nat j)))
      (event_weight (events_m s ! nat i) * event_weight (events_m s ! nat j))
      (s\<lparr>emd_objs_m := (emd_objs_m s)
             [0 := compute fill solve (emd_objs_m s ! 0) (events_m s ! nat i) (events_m s ! nat j)],
           error_messages_m := error_messages_m s @
             (if status_m (compute fill solve (emd_objs_m s ! 0) (events_m s ! nat i)
                    (events_m s ! nat j)) = Success then []
              else [failure_message (status_m (compute fill solve (emd_objs_m s ! 0)
                      (events_m s ! nat i) (events_m s ! nat j))) i j])\<rparr>)"
proof -
  have g: "vec_get (events_m s) i = Inr (events_m s ! nat i)"
    "vec_get (events_m s) j = Inr (events_m s ! nat j)"
    using assms(4-7) by (simp_all add: vec_get_def)
  show ?thesis
    using assms(1,2,9)
    by (simp add: dispatch_def assms(3) g run_pair_Inr [OF assms(8)])
qed


lemma dispatch_in_batch:
  assumes bs: "batch_state s" and k: "0 \<le> k" "k < num_emds_m s"
  shows "let ij = (if two_event_sets_m s then (k sdiv nevB_m s, k smod nevB_m s)
                   else symmetric_pair (nevA_m s) (nevB_m s) k);
             i = fst ij; j = snd ij;
             eventA = events_m s ! nat i;
             eventB = events_m s ! nat (if two_event_sets_m s then nevA_m s + j else j);
             obj = compute fill solve (emd_objs_m s ! 0) eventA eventB;
             d = emd_m obj; w = event_weight eventA * event_weight eventB
         in 0 \<le> i \<and> i < nevA_m s \<and> 0 \<le> j \<and> j < nevB_m s
          \<and> (\<exists>s'. dispatch fill solve k s = Inr s'
              \<and> batch_state s'
              \<and> emd_objs_m s' = (emd_objs_m s)[0 := obj]
              \<and> error_messages_m s' = error_messages_m s
                   @ (if status_m obj = Success then [] else [failure_message (status_m obj) i j])
              \<and> (case handler_m s of
                    Some calls \<Rightarrow>
                      handler_m s' = Some (calls @ [(d, w)]) \<and> emds_m s' = emds_m s
                  | None \<Rightarrow>
                      handler_m s' = None
                      \<and> (case emd_storage_m s of
                            Full \<Rightarrow>
                              nat k < length (emds_m s) \<and> emds_m s' = (emds_m s)[nat k := d]
                          | FlattenedSymmetric \<Rightarrow>
                              0 \<le> index_symmetric i j s
                              \<and> nat (index_symmetric i j s) < length (emds_m s)
                              \<and> emds_m s' = (emds_m s)[nat (index_symmetric i j s) := d]
                          | FullSymmetric \<Rightarrow>
                              nat (j * nevB_m s + i) < length (emds_m s)
                              \<and> nat (i * nevB_m s + j) < length (emds_m s)
                              \<and> emds_m s' = (emds_m s)
                                   [nat (j * nevB_m s + i) := d, nat (i * nevB_m s + j) := d]
                          | External \<Rightarrow> emds_m s' = emds_m s)))"
proof (cases "two_event_sets_m s")
  case True
  have f: "\<not> request_mode_m s" "emd_objs_m s \<noteq> []" "0 \<le> nevA_m s" "0 \<le> nevB_m s"
    "num_emds_m s = nevA_m s * nevB_m s" "int (length (events_m s)) = nevA_m s + nevB_m s"
    using bs True by (simp_all add: batch_state_def)
  have k2: "k < nevA_m s * nevB_m s" using k(2) f(5) by simp
  note r = flat_index_range [OF k(1) k2 f(3,4)]
  have ev: "0 \<le> k sdiv nevB_m s" "k sdiv nevB_m s < int (length (events_m s))"
    "0 \<le> nevA_m s + k smod nevB_m s" "nevA_m s + k smod nevB_m s < int (length (events_m s))"
    using r f(3,4,6) by simp_all
  have N0: "nevB_m s \<noteq> 0" using r(1) by simp
  note d = dispatch_two_sets [OF True N0 ev f(2), of fill solve]
  show ?thesis
  proof (cases "handler_m s")
    case None
    have st: "emd_storage_m s = Full" "int (length (emds_m s)) = num_emds_m s"
      using bs True None by (simp_all add: batch_state_def)
    have kl: "nat k < length (emds_m s)" "k < int (length (emds_m s))" using k st(2) by simp_all
    show ?thesis
      using True None r f st kl k(1)
      by (simp add: d Let_def vec_set_def batch_state_def)
  next
    case (Some calls)
    have st: "emd_storage_m s = External"
      using bs True Some by (simp add: batch_state_def)
    show ?thesis
      using True Some r f st
      by (simp add: d Let_def call_handler_def batch_state_def)
  qed
next
  case False
  define N where "N = nevA_m s"
  have f: "\<not> request_mode_m s" "emd_objs_m s \<noteq> []" "0 \<le> N" "nevB_m s = N" "nevA_m s = N"
    "num_emds_m s = (N * (N - 1)) sdiv 2" "int (length (events_m s)) = N"
    using bs False by (simp_all add: batch_state_def N_def)
  obtain i j where ij: "symmetric_pair N N k = (i, j)" by fastforce
  have r: "0 \<le> j" "j < i" "i < N"
    using symmetric_pair_range [of k N] k f(6,3) ij by simp_all
  have N0: "nevB_m s \<noteq> 0" using r f(4) by auto
  have sp: "symmetric_pair (nevA_m s) (nevB_m s) k = (i, j)" using ij f by simp
  have ev: "0 \<le> i" "i < int (length (events_m s))" "0 \<le> j" "j < int (length (events_m s))"
    using r f(7) by simp_all
  show ?thesis
  proof (cases "handler_m s")
    case (Some calls)
    have st: "emd_storage_m s = External"
      using bs False Some by (simp add: batch_state_def)
    show ?thesis
      using False Some r f st sp
      by (simp add: dispatch_self_handler_call [OF False N0 sp ev f(2) st] Let_def
          call_handler_def batch_state_def)
  next
    case None
    consider (flat) "emd_storage_m s = FlattenedSymmetric"
        "int (length (emds_m s)) = num_emds_m s"
      | (full) "emd_storage_m s = FullSymmetric" "int (length (emds_m s)) = N * N"
      using bs False None by (auto simp add: batch_state_def N_def)
    then show ?thesis
    proof cases
      case flat
      have ix: "0 \<le> index_symmetric i j s" "index_symmetric i j s < int (length (emds_m s))"
        using index_symmetric_range(1) [of j i s] r f flat by simp_all
      have ixn: "nat (index_symmetric i j s) < length (emds_m s)" using ix by linarith
      show ?thesis
        using False None r f flat sp ix ixn
        by (simp add: dispatch_self_flattened [OF False N0 sp ev f(2) flat(1) ix] Let_def
            batch_state_def)
    next
      case full
      have b1: "0 \<le> j * nevB_m s + i" "j * nevB_m s + i < int (length (emds_m s))"
        using row_major_bound [of j N i] r full(2) f(4) by simp_all
      have b2: "0 \<le> i * nevB_m s + j" "i * nevB_m s + j < int (length (emds_m s))"
        using row_major_bound [of i N j] r full(2) f(4) by simp_all
      have bn: "nat (j * nevB_m s + i) < length (emds_m s)"
        "nat (i * nevB_m s + j) < length (emds_m s)"
        using b1 b2 by linarith+
      show ?thesis
        using False None r f full sp bn
        by (simp add: dispatch_self_full_symmetric [OF False N0 sp ev f(2) full(1) b1 b2] Let_def
            batch_state_def)
    qed
  qed
qed


lemma run_chunk_in_batch:
  "batch_state s \<Longrightarrow> 0 \<le> k \<Longrightarrow> stop \<le> num_emds_m s \<Longrightarrow>
   \<exists>s'. run_chunk fill solve k stop s = Inr s' \<and> batch_state s'"
proof (induction "nat (stop - k)" arbitrary: k s)
  case 0
  then show ?case by (simp add: run_chunk_done)
next
  case (Suc n)
  then have lt: "k < stop" by linarith
  then have "k < num_emds_m s" using Suc.prems(3) by linarith
  from dispatch_in_batch [OF Suc.prems(1,2) this, of fill solve]
  obtain t where t: "dispatch fill solve k s = Inr t" "batch_state t"
    unfolding Let_def by blast
  have "num_emds_m t = num_emds_m s"
    using dispatch_same_batch [OF t(1)] by (simp add: same_batch_def)
  moreover have "n = nat (stop - (k + 1))" using Suc.hyps(2) by linarith
  ultimately obtain s' where "run_chunk fill solve (k + 1) stop t = Inr s'" "batch_state s'"
    using Suc.hyps(1) [of "k + 1" t] t(2) Suc.prems(2,3) by auto
  then show ?case using lt t(1) by (simp add: run_chunk_step)
qed

lemma loaded_pairs_fields:
  "request_mode_m loaded_pairs = False"
  "handler_m loaded_pairs = None"
  "emd_objs_m loaded_pairs = [fresh_EMD]"
  "events_m loaded_pairs = weighted_events_A @ weighted_events_B"
  "emds_m loaded_pairs = [0, 0]"
  "error_messages_m loaded_pairs = []"
  "emd_storage_m loaded_pairs = Full"
  "nevA_m loaded_pairs = 2"
  "nevB_m loaded_pairs = 1"
  "num_emds_m loaded_pairs = 2"
  "two_event_sets_m loaded_pairs = True"
  by (simp_all add: loaded_pairs_def load_event_sets_def init_pairs_nonneg reserve_def clear_def Let_def
      have_external_emd_handler_def fresh_PairwiseEMD_fields weighted_events_A_def
      weighted_events_B_def resize_def numeral_eq_Suc)

lemma loaded_pairs_handler_fields:
  "request_mode_m loaded_pairs_handler = False"
  "handler_m loaded_pairs_handler = Some []"
  "emd_objs_m loaded_pairs_handler = [fresh_EMD]"
  "events_m loaded_pairs_handler = weighted_events_A @ weighted_events_B"
  "emds_m loaded_pairs_handler = []"
  "error_messages_m loaded_pairs_handler = []"
  "emd_storage_m loaded_pairs_handler = External"
  "nevA_m loaded_pairs_handler = 2"
  "nevB_m loaded_pairs_handler = 1"
  "num_emds_m loaded_pairs_handler = 2"
  "two_event_sets_m loaded_pairs_handler = True"
  by (simp_all add: loaded_pairs_handler_def load_event_sets_def init_pairs_nonneg reserve_def clear_def
      Let_def have_external_emd_handler_def set_external_emd_handler_def
      fresh_PairwiseEMD_fields weighted_events_A_def weighted_events_B_def)

lemma weighted_events_nth:
  "(weighted_events_A @ weighted_events_B) ! 0 = light_event\<lparr>event_weight := 2\<rparr>"
  "(weighted_events_A @ weighted_events_B) ! Suc 0 = heavy_event"
  "(weighted_events_A @ weighted_events_B) ! 2 = heavy_event\<lparr>event_weight := 3\<rparr>"
  by (simp_all add: weighted_events_A_def weighted_events_B_def)

lemma weighted_event_fields:
  "event_weight (light_event\<lparr>event_weight := 2\<rparr>) = 2"
  "event_weight (heavy_event\<lparr>event_weight := 3\<rparr>) = 3"
  "total_weight (light_event\<lparr>event_weight := 2\<rparr>) = 1"
  "total_weight (heavy_event\<lparr>event_weight := 3\<rparr>) = 2"
  by (simp_all add: light_event_def heavy_event_def)


text \<open>
  C6, as amended. A batch is in the state that \<open>init\<close> and the copy of the events
  leave outside request mode (\<open>batch_state\<close>): both public entry points establish it
  and keep the handler that was set, and it makes external storage coincide with a
  handler being set. In such a state the loop body completes for every flat index
  \<open>k\<close> below the number of pairs, and keeps the state; the indices of the pair are in
  range and the worker's solver has run on the pair's two events. Whatever status it
  returned: if a handler is set, the handler has received the distance \<open>d\<close> together
  with the product \<open>w\<close> of the two event weights and the result store is untouched;
  otherwise no handler appears and \<open>d\<close> is written into the result store at the address
  of the storage mode, which lies inside the store: \<open>k\<close> for the full matrix,
  \<open>index_symmetric i j\<close> for the flattened one, \<open>j * nevB + i\<close> and \<open>i * nevB + j\<close> for
  the full symmetric one. A status other than \<open>Success\<close> appends one failure message
  and changes nothing else. A whole chunk of such indices completes as well.
\<close>

theorem dispatch_stores_or_hands_over_whatever_the_status:
  "(\<not> request_mode_m s0 \<and> emd_objs_m s0 \<noteq> [] \<longrightarrow>
      (\<exists>t. load_events events s0 = Inr t \<and> batch_state t \<and> handler_m t = handler_m s0)
    \<and> (\<exists>t. load_event_sets eventsA eventsB s0 = Inr t \<and> batch_state t
           \<and> handler_m t = handler_m s0))
   \<and> (batch_state s \<and> 0 \<le> k \<and> k < num_emds_m s \<longrightarrow>
       (let ij = (if two_event_sets_m s then (k sdiv nevB_m s, k smod nevB_m s)
                  else symmetric_pair (nevA_m s) (nevB_m s) k);
            i = fst ij; j = snd ij;
            eventA = events_m s ! nat i;
            eventB = events_m s ! nat (if two_event_sets_m s then nevA_m s + j else j);
            obj = compute fill solve (emd_objs_m s ! 0) eventA eventB;
            d = emd_m obj; w = event_weight eventA * event_weight eventB
        in 0 \<le> i \<and> i < nevA_m s \<and> 0 \<le> j \<and> j < nevB_m s
         \<and> (\<exists>s'. dispatch fill solve k s = Inr s'
             \<and> batch_state s'
             \<and> emd_objs_m s' = (emd_objs_m s)[0 := obj]
             \<and> error_messages_m s' = error_messages_m s
                  @ (if status_m obj = Success then [] else [failure_message (status_m obj) i j])
             \<and> (case handler_m s of
                   Some calls \<Rightarrow>
                     handler_m s' = Some (calls @ [(d, w)]) \<and> emds_m s' = emds_m s
                 | None \<Rightarrow>
                     handler_m s' = None
                     \<and> (case emd_storage_m s of
                           Full \<Rightarrow>
                             nat k < length (emds_m s) \<and> emds_m s' = (emds_m s)[nat k := d]
                         | FlattenedSymmetric \<Rightarrow>
                             0 \<le> index_symmetric i j s
                             \<and> nat (index_symmetric i j s) < length (emds_m s)
                             \<and> emds_m s' = (emds_m s)[nat (index_symmetric i j s) := d]
                         | FullSymmetric \<Rightarrow>
                             nat (j * nevB_m s + i) < length (emds_m s)
                             \<and> nat (i * nevB_m s + j) < length (emds_m s)
                             \<and> emds_m s' = (emds_m s)
                                  [nat (j * nevB_m s + i) := d, nat (i * nevB_m s + j) := d]
                         | External \<Rightarrow> emds_m s' = emds_m s)))))
   \<and> (batch_state s \<and> 0 \<le> k \<and> stop \<le> num_emds_m s \<longrightarrow>
       (\<exists>s'. run_chunk fill solve k stop s = Inr s' \<and> batch_state s'))"
proof (intro conjI impI)
  assume a: "\<not> request_mode_m s0 \<and> emd_objs_m s0 \<noteq> []"
  show "\<exists>t. load_events events s0 = Inr t \<and> batch_state t \<and> handler_m t = handler_m s0"
    using load_events_batch_state [of s0 events] a by blast
  show "\<exists>t. load_event_sets eventsA eventsB s0 = Inr t \<and> batch_state t
      \<and> handler_m t = handler_m s0"
    using load_event_sets_batch_state [of s0 eventsA eventsB] a by blast
next
  assume a: "batch_state s \<and> 0 \<le> k \<and> k < num_emds_m s"
  show "let ij = (if two_event_sets_m s then (k sdiv nevB_m s, k smod nevB_m s)
                  else symmetric_pair (nevA_m s) (nevB_m s) k);
            i = fst ij; j = snd ij;
            eventA = events_m s ! nat i;
            eventB = events_m s ! nat (if two_event_sets_m s then nevA_m s + j else j);
            obj = compute fill solve (emd_objs_m s ! 0) eventA eventB;
            d = emd_m obj; w = event_weight eventA * event_weight eventB
        in 0 \<le> i \<and> i < nevA_m s \<and> 0 \<le> j \<and> j < nevB_m s
         \<and> (\<exists>s'. dispatch fill solve k s = Inr s'
             \<and> batch_state s'
             \<and> emd_objs_m s' = (emd_objs_m s)[0 := obj]
             \<and> error_messages_m s' = error_messages_m s
                  @ (if status_m obj = Success then [] else [failure_message (status_m obj) i j])
             \<and> (case handler_m s of
                   Some calls \<Rightarrow>
                     handler_m s' = Some (calls @ [(d, w)]) \<and> emds_m s' = emds_m s
                 | None \<Rightarrow>
                     handler_m s' = None
                     \<and> (case emd_storage_m s of
                           Full \<Rightarrow>
                             nat k < length (emds_m s) \<and> emds_m s' = (emds_m s)[nat k := d]
                         | FlattenedSymmetric \<Rightarrow>
                             0 \<le> index_symmetric i j s
                             \<and> nat (index_symmetric i j s) < length (emds_m s)
                             \<and> emds_m s' = (emds_m s)[nat (index_symmetric i j s) := d]
                         | FullSymmetric \<Rightarrow>
                             nat (j * nevB_m s + i) < length (emds_m s)
                             \<and> nat (i * nevB_m s + j) < length (emds_m s)
                             \<and> emds_m s' = (emds_m s)
                                  [nat (j * nevB_m s + i) := d, nat (i * nevB_m s + j) := d]
                         | External \<Rightarrow> emds_m s' = emds_m s)))"
    using a by (intro dispatch_in_batch) simp_all
next
  assume a: "batch_state s \<and> 0 \<le> k \<and> stop \<le> num_emds_m s"
  show "\<exists>s'. run_chunk fill solve k stop s = Inr s' \<and> batch_state s'"
    using a by (intro run_chunk_in_batch) simp_all
qed


lemma example_batch_states:
  "batch_state loaded_pairs" "batch_state loaded_pairs_handler"
  "batch_state loaded_self_handler" "batch_state (loaded_self True False (- 10))"
  by (simp_all add: batch_state_def loaded_pairs_fields loaded_pairs_handler_fields
      loaded_self_handler_fields loaded_self_fields weighted_events_A_def weighted_events_B_def
      three_events_def three_sdiv)

theorem dispatch_stores_or_hands_over_whatever_the_status_witness:
  "batch_state loaded_pairs_handler
   \<and> (\<exists>s'. dispatch keep_dists (fixed_cost_solver Infeasible (5 / 2)) 0 loaded_pairs_handler
             = Inr s'
          \<and> handler_m s' = Some [(5 / 2, 6)] \<and> emds_m s' = []
          \<and> error_messages_m s' = [failure_message Infeasible 0 0])
   \<and> batch_state loaded_pairs
   \<and> (\<exists>s'. dispatch keep_dists (fixed_cost_solver Success (5 / 2)) 1 loaded_pairs = Inr s'
          \<and> handler_m s' = None \<and> emds_m s' = [0, 5] \<and> error_messages_m s' = [])
   \<and> batch_state loaded_self_handler
   \<and> (\<exists>s'. dispatch keep_dists (fixed_cost_solver Infeasible (5 / 2)) 0 loaded_self_handler
             = Inr s'
          \<and> handler_m s' = Some [(5 / 2, 1)] \<and> emds_m s' = []
          \<and> error_messages_m s' = [failure_message Infeasible 1 0])
   \<and> batch_state (loaded_self True False (- 10))
   \<and> (\<exists>s'. dispatch keep_dists (fixed_cost_solver Infeasible (5 / 2)) 0
               (loaded_self True False (- 10)) = Inr s'
          \<and> handler_m s' = None \<and> emds_m s' = [5 / 2, 0, 0]
          \<and> error_messages_m s' = [failure_message Infeasible 1 0])"
proof -
  note bs = example_batch_states
  have d: "(0::int) sdiv 1 = 0" "(0::int) smod 1 = 0" "(1::int) sdiv 1 = 1" "(1::int) smod 1 = 0"
    by (simp_all add: sdiv_nonneg smod_nonneg)
  have p1: "\<exists>s'. dispatch keep_dists (fixed_cost_solver Infeasible (5 / 2)) 0 loaded_pairs_handler
             = Inr s'
          \<and> handler_m s' = Some [(5 / 2, 6)] \<and> emds_m s' = []
          \<and> error_messages_m s' = [failure_message Infeasible 0 0]"
    using dispatch_stores_or_hands_over_whatever_the_status [THEN conjunct2, THEN conjunct1, rule_format,
        where s = loaded_pairs_handler and k = 0 and fill = keep_dists
          and solve = "fixed_cost_solver Infeasible (5 / 2)"] bs(2)
    by (auto simp add: Let_def loaded_pairs_handler_fields weighted_events_nth d compute_fixed_cost
        weighted_event_fields)
  have p2: "\<exists>s'. dispatch keep_dists (fixed_cost_solver Success (5 / 2)) 1 loaded_pairs = Inr s'
          \<and> handler_m s' = None \<and> emds_m s' = [0, 5] \<and> error_messages_m s' = []"
    using dispatch_stores_or_hands_over_whatever_the_status [THEN conjunct2, THEN conjunct1, rule_format,
        where s = loaded_pairs and k = 1 and fill = keep_dists
          and solve = "fixed_cost_solver Success (5 / 2)"] bs(1)
    by (auto simp add: Let_def loaded_pairs_fields weighted_events_nth d compute_fixed_cost
        weighted_event_fields example_event_weights)
  have p3: "\<exists>s'. dispatch keep_dists (fixed_cost_solver Infeasible (5 / 2)) 0 loaded_self_handler
             = Inr s'
          \<and> handler_m s' = Some [(5 / 2, 1)] \<and> emds_m s' = []
          \<and> error_messages_m s' = [failure_message Infeasible 1 0]"
    using dispatch_stores_or_hands_over_whatever_the_status [THEN conjunct2, THEN conjunct1, rule_format,
        where s = loaded_self_handler and k = 0 and fill = keep_dists
          and solve = "fixed_cost_solver Infeasible (5 / 2)"] bs(3)
    by (auto simp add: Let_def loaded_self_handler_fields symmetric_pair_3 three_events_nth
        compute_fixed_cost example_event_weights)
  have i: "index_symmetric 1 0 (loaded_self True False (- 10)) = 0"
    by (simp add: index_symmetric_def loaded_self_fields signed_divide_int_def)
  have p4: "\<exists>s'. dispatch keep_dists (fixed_cost_solver Infeasible (5 / 2)) 0
               (loaded_self True False (- 10)) = Inr s'
          \<and> handler_m s' = None \<and> emds_m s' = [5 / 2, 0, 0]
          \<and> error_messages_m s' = [failure_message Infeasible 1 0]"
    using dispatch_stores_or_hands_over_whatever_the_status [THEN conjunct2, THEN conjunct1, rule_format,
        where s = "loaded_self True False (- 10)" and k = 0 and fill = keep_dists
          and solve = "fixed_cost_solver Infeasible (5 / 2)"] bs(4)
    by (auto simp add: Let_def loaded_self_fields symmetric_pair_3 three_events_nth i
        compute_fixed_cost example_event_weights)
  show ?thesis using bs p1 p2 p3 p4 by simp
qed

text \<open>
  C6 as stated fails: a pair whose status is \<open>Infeasible\<close> is written into the result
  store, and with a handler set the handler is invoked for it.
\<close>

theorem failed_pair_is_stored_and_handled_counterexample:
  "status_m (compute keep_dists (fixed_cost_solver Infeasible (5 / 2)) fresh_EMD
      heavy_event light_event) \<noteq> Success
   \<and> emds_m (loaded_self True False (- 10)) = [0, 0, 0]
   \<and> emds_m (projr (dispatch keep_dists (fixed_cost_solver Infeasible (5 / 2)) 0
        (loaded_self True False (- 10)))) = [5 / 2, 0, 0]
   \<and> handler_m loaded_self_handler = Some []
   \<and> handler_m (projr (dispatch keep_dists (fixed_cost_solver Infeasible (5 / 2)) 0
        loaded_self_handler)) = Some [(5 / 2, 1)]"
  by (simp add: dispatch_infeasible_flat dispatch_infeasible_handler compute_fixed_cost
      loaded_self_fields loaded_self_handler_fields)

subsection \<open>The dense view of flattened storage\<close>

lemma zero_diagonal_step:
  "i < nevA \<Longrightarrow> zero_diagonal nevA i full
     = on_success (vec_set full (i * i) 0) (zero_diagonal nevA (i + 1))"
  by (subst zero_diagonal.simps) simp

lemma zero_diagonal_done: "\<not> i < nevA \<Longrightarrow> zero_diagonal nevA i full = Inr full"
  by (subst zero_diagonal.simps) simp

lemma fill_row_step:
  "j < nevB_m s \<Longrightarrow> fill_row s i j full =
     on_success (vec_get (emds_m s) (index_symmetric i j s)) (\<lambda>v.
     on_success (vec_set full (j * nevB_m s + i) v) (\<lambda>full1.
     on_success (vec_set full1 (i * nevB_m s + j) v) (\<lambda>full2.
     fill_row s i (j + 1) full2)))"
  by (subst fill_row.simps) simp

lemma fill_row_done: "\<not> j < nevB_m s \<Longrightarrow> fill_row s i j full = Inr full"
  by (subst fill_row.simps) simp

lemma fill_rows_step:
  "i < nevA_m s \<Longrightarrow> fill_rows s i full
     = on_success (fill_row s i (i + 1) full) (fill_rows s (i + 1))"
  by (subst fill_rows.simps) simp

lemma fill_rows_done: "\<not> i < nevA_m s \<Longrightarrow> fill_rows s i full = Inr full"
  by (subst fill_rows.simps) simp

lemma row_major_int_inj:
  assumes "nat (a * N + b) = nat (c * N + d)"
    and "0 \<le> a" "0 \<le> b" "b < N" "0 \<le> c" "0 \<le> d" "d < (N::int)"
  shows "a = c \<and> b = d"
proof -
  have "0 \<le> a * N + b" "0 \<le> c * N + d"
    using assms by (auto intro!: add_nonneg_nonneg mult_nonneg_nonneg)
  then have e: "a * N + b = c * N + d" using assms(1) by linarith
  have "(a * N + b) div N = a" "(c * N + d) div N = c" using assms by simp_all
  then have "a = c" using e by simp
  then show ?thesis using e by simp
qed

lemma zero_diagonal_result:
  assumes "0 \<le> i" "int (length full) = N * N"
  shows "\<exists>full'. zero_diagonal N i full = Inr full' \<and> length full' = length full
     \<and> (\<forall>q < length full.
          full' ! q = (if \<exists>r. i \<le> r \<and> r < N \<and> q = nat (r * r) then 0 else full ! q))"
  using assms
proof (induction "nat (N - i)" arbitrary: i full)
  case 0
  then have "\<not> i < N" by linarith
  then show ?case by (auto simp add: zero_diagonal_done)
next
  case (Suc n)
  define W where "W = (\<lambda>lo q. \<exists>r. lo \<le> r \<and> r < N \<and> q = nat (r * r))"
  have lt: "i < N" using Suc.hyps(2) by linarith
  have "i * i < N * N" using lt Suc.prems(1) by (intro mult_strict_mono) auto
  then have b: "0 \<le> i * i" "i * i < int (length full)" using Suc.prems by simp_all
  let ?f1 = "full[nat (i * i) := 0]"
  have vs: "vec_set full (i * i) 0 = Inr ?f1" using b by (simp add: vec_set_def)
  have "n = nat (N - (i + 1))" using Suc.hyps(2) by linarith
  then obtain full' where f: "zero_diagonal N (i + 1) ?f1 = Inr full'"
      "length full' = length ?f1"
      "\<forall>q < length ?f1. full' ! q = (if W (i + 1) q then 0 else ?f1 ! q)"
    using Suc.hyps(1) [of "i + 1" ?f1] Suc.prems unfolding W_def by auto
  have W: "W i q \<longleftrightarrow> q = nat (i * i) \<or> W (i + 1) q" for q
  proof
    assume "W i q"
    then obtain r where r: "i \<le> r" "r < N" "q = nat (r * r)" unfolding W_def by blast
    show "q = nat (i * i) \<or> W (i + 1) q"
    proof (cases "r = i")
      case True
      then show ?thesis using r by simp
    next
      case False
      then have "i + 1 \<le> r" using r(1) by linarith
      then show ?thesis unfolding W_def using r by blast
    qed
  next
    assume "q = nat (i * i) \<or> W (i + 1) q"
    then show "W i q"
    proof
      assume "q = nat (i * i)"
      then show ?thesis unfolding W_def using lt by blast
    next
      assume "W (i + 1) q"
      then obtain r where "i + 1 \<le> r" "r < N" "q = nat (r * r)" unfolding W_def by blast
      then have "i \<le> r \<and> r < N \<and> q = nat (r * r)" by simp
      then show ?thesis unfolding W_def by blast
    qed
  qed
  have "full' ! q = (if W i q then 0 else full ! q)" if q: "q < length full" for q
    using f(3) q W [of q] by (cases "q = nat (i * i)") auto
  then have "\<forall>q < length full.
      full' ! q = (if \<exists>r. i \<le> r \<and> r < N \<and> q = nat (r * r) then 0 else full ! q)"
    unfolding W_def by blast
  then show ?case using lt vs f(1,2) by (simp add: zero_diagonal_step)
qed


lemma fill_row_result:
  assumes S: "nevA_m s = N" "nevB_m s = N" "num_emds_m s = (N * (N - 1)) sdiv 2"
      "int (length (emds_m s)) = num_emds_m s"
    and i: "0 \<le> i"
  shows "i < j \<Longrightarrow> int (length full) = N * N \<Longrightarrow>
    \<exists>full'. fill_row s i j full = Inr full' \<and> length full' = length full
     \<and> (\<forall>b. j \<le> b \<and> b < N \<longrightarrow>
           full' ! nat (i * N + b) = emds_m s ! nat (index_symmetric i b s)
         \<and> full' ! nat (b * N + i) = emds_m s ! nat (index_symmetric i b s))
     \<and> (\<forall>q < length full.
           (\<forall>b. j \<le> b \<and> b < N \<longrightarrow> q \<noteq> nat (i * N + b) \<and> q \<noteq> nat (b * N + i))
           \<longrightarrow> full' ! q = full ! q)"
proof (induction "nat (N - j)" arbitrary: j full)
  case 0
  then have "\<not> j < nevB_m s" using S(2) by linarith
  then have "fill_row s i j full = Inr full" by (rule fill_row_done)
  moreover have "\<not> (j \<le> b \<and> b < N)" for b using 0 by linarith
  ultimately show ?case by blast
next
  case (Suc n)
  have lt: "j < N" using Suc.hyps(2) by linarith
  have iN: "i < N" using Suc.prems(1) lt by linarith
  let ?v = "emds_m s ! nat (index_symmetric i j s)"
  have ir: "0 \<le> index_symmetric j i s \<and> index_symmetric j i s < num_emds_m s"
    "index_symmetric i j s = index_symmetric j i s"
    using index_symmetric_range [of i j s] i Suc.prems(1) lt S(1,3) by simp_all
  have vg: "vec_get (emds_m s) (index_symmetric i j s) = Inr ?v"
    using ir S(4) by (simp add: vec_get_def)
  let ?p1 = "nat (j * N + i)" and ?p2 = "nat (i * N + j)"
  have b1: "0 \<le> j * N + i" "j * N + i < N * N"
    using row_major_bound [of j N i] i Suc.prems(1) lt iN by simp_all
  have b2: "0 \<le> i * N + j" "i * N + j < N * N"
    using row_major_bound [of i N j] i Suc.prems(1) lt iN by simp_all
  let ?f2 = "full[?p1 := ?v, ?p2 := ?v]"
  have vs: "vec_set full (j * N + i) ?v = Inr (full[?p1 := ?v])"
    "vec_set (full[?p1 := ?v]) (i * N + j) ?v = Inr ?f2"
    using b1 b2 Suc.prems(2) by (simp_all add: vec_set_def)
  have step: "fill_row s i j full = fill_row s i (j + 1) ?f2"
    using lt S(2) vg vs by (simp add: fill_row_step)
  have "n = nat (N - (j + 1))" using Suc.hyps(2) by linarith
  then obtain full' where f: "fill_row s i (j + 1) ?f2 = Inr full'"
      "length full' = length ?f2"
    and w: "\<And>b. j + 1 \<le> b \<Longrightarrow> b < N \<Longrightarrow>
           full' ! nat (i * N + b) = emds_m s ! nat (index_symmetric i b s)
         \<and> full' ! nat (b * N + i) = emds_m s ! nat (index_symmetric i b s)"
    and u: "\<And>q. q < length ?f2 \<Longrightarrow>
           (\<forall>b. j + 1 \<le> b \<and> b < N \<longrightarrow> q \<noteq> nat (i * N + b) \<and> q \<noteq> nat (b * N + i))
           \<Longrightarrow> full' ! q = ?f2 ! q"
    using Suc.hyps(1) [of "j + 1" ?f2] Suc.prems by auto
  have later: "nat (a * N + c) \<noteq> nat (i * N + b) \<and> nat (a * N + c) \<noteq> nat (b * N + i)"
    if "j + 1 \<le> b" "b < N" "(a = i \<and> c = j) \<or> (a = j \<and> c = i)" for a c b
    using row_major_int_inj [of a N c i b] row_major_int_inj [of a N c b i]
      that i iN lt Suc.prems(1) by auto
  have len: "?p1 < length full" "?p2 < length full"
    using b1 b2 Suc.prems(2) by linarith+
  have at2: "full' ! ?p2 = ?v"
  proof -
    have "full' ! ?p2 = ?f2 ! ?p2" using u [of ?p2] later [of _ i j] len by simp
    then show ?thesis using len by simp
  qed
  have at1: "full' ! ?p1 = ?v"
  proof -
    have "full' ! ?p1 = ?f2 ! ?p1" using u [of ?p1] later [of _ j i] len by simp
    then show ?thesis using len by (simp add: nth_list_update)
  qed
  have W: "full' ! nat (i * N + b) = emds_m s ! nat (index_symmetric i b s)
         \<and> full' ! nat (b * N + i) = emds_m s ! nat (index_symmetric i b s)"
    if "j \<le> b \<and> b < N" for b
  proof (cases "b = j")
    case True
    then show ?thesis using at1 at2 by simp
  next
    case False
    then show ?thesis using w [of b] that by simp
  qed
  have U: "full' ! q = full ! q"
    if q: "q < length full"
      and n: "\<forall>b. j \<le> b \<and> b < N \<longrightarrow> q \<noteq> nat (i * N + b) \<and> q \<noteq> nat (b * N + i)" for q
  proof -
    have "q \<noteq> ?p1" "q \<noteq> ?p2" using n lt by auto
    moreover have "full' ! q = ?f2 ! q" using u [of q] q n by simp
    ultimately show ?thesis by simp
  qed
  show ?case using step f W U by simp
qed


lemma fill_rows_result:
  assumes S: "nevA_m s = N" "nevB_m s = N" "num_emds_m s = (N * (N - 1)) sdiv 2"
      "int (length (emds_m s)) = num_emds_m s"
  shows "0 \<le> i \<Longrightarrow> int (length full) = N * N \<Longrightarrow>
    \<exists>full'. fill_rows s i full = Inr full' \<and> length full' = length full
     \<and> (\<forall>a b. i \<le> a \<and> a < b \<and> b < N \<longrightarrow>
           full' ! nat (a * N + b) = emds_m s ! nat (index_symmetric a b s)
         \<and> full' ! nat (b * N + a) = emds_m s ! nat (index_symmetric a b s))
     \<and> (\<forall>q < length full.
           (\<forall>a b. i \<le> a \<and> a < b \<and> b < N \<longrightarrow> q \<noteq> nat (a * N + b) \<and> q \<noteq> nat (b * N + a))
           \<longrightarrow> full' ! q = full ! q)"
proof (induction "nat (N - i)" arbitrary: i full)
  case 0
  then have "\<not> i < nevA_m s" using S(1) by linarith
  then have "fill_rows s i full = Inr full" by (rule fill_rows_done)
  moreover have "\<not> (i \<le> a \<and> a < b \<and> b < N)" for a b using 0 by linarith
  ultimately show ?case by blast
next
  case (Suc n)
  have lt: "i < N" using Suc.hyps(2) by linarith
  obtain f1 where r: "fill_row s i (i + 1) full = Inr f1" "length f1 = length full"
    and rw: "\<And>b. i + 1 \<le> b \<Longrightarrow> b < N \<Longrightarrow>
           f1 ! nat (i * N + b) = emds_m s ! nat (index_symmetric i b s)
         \<and> f1 ! nat (b * N + i) = emds_m s ! nat (index_symmetric i b s)"
    and ru: "\<And>q. q < length full \<Longrightarrow>
           (\<forall>b. i + 1 \<le> b \<and> b < N \<longrightarrow> q \<noteq> nat (i * N + b) \<and> q \<noteq> nat (b * N + i))
           \<Longrightarrow> f1 ! q = full ! q"
    using fill_row_result [OF S Suc.prems(1), of "i + 1" full] Suc.prems(2) by auto
  have step: "fill_rows s i full = fill_rows s (i + 1) f1"
    using lt S(1) r(1) by (simp add: fill_rows_step)
  have "n = nat (N - (i + 1))" using Suc.hyps(2) by linarith
  then obtain full' where f: "fill_rows s (i + 1) f1 = Inr full'" "length full' = length f1"
    and w: "\<And>a b. i + 1 \<le> a \<Longrightarrow> a < b \<Longrightarrow> b < N \<Longrightarrow>
           full' ! nat (a * N + b) = emds_m s ! nat (index_symmetric a b s)
         \<and> full' ! nat (b * N + a) = emds_m s ! nat (index_symmetric a b s)"
    and u: "\<And>q. q < length f1 \<Longrightarrow>
           (\<forall>a b. i + 1 \<le> a \<and> a < b \<and> b < N \<longrightarrow>
              q \<noteq> nat (a * N + b) \<and> q \<noteq> nat (b * N + a))
           \<Longrightarrow> full' ! q = f1 ! q"
    using Suc.hyps(1) [of "i + 1" f1] Suc.prems r(2) by auto
  have later: "nat (c * N + d) \<noteq> nat (a * N + b) \<and> nat (c * N + d) \<noteq> nat (b * N + a)"
    if "i + 1 \<le> a" "a < b" "b < N" "(c = i \<and> i < d \<and> d < N) \<or> (d = i \<and> i < c \<and> c < N)"
    for a b c d
    using row_major_int_inj [of c N d a b] row_major_int_inj [of c N d b a]
      that Suc.prems(1) by auto
  have inb: "nat (c * N + d) < length full" if "0 \<le> c" "c < N" "0 \<le> d" "d < N" for c d
    using row_major_bound [OF that] Suc.prems(2) by linarith
  have W: "full' ! nat (a * N + b) = emds_m s ! nat (index_symmetric a b s)
         \<and> full' ! nat (b * N + a) = emds_m s ! nat (index_symmetric a b s)"
    if ab: "i \<le> a \<and> a < b \<and> b < N" for a b
  proof (cases "a = i")
    case True
    have "full' ! nat (i * N + b) = f1 ! nat (i * N + b)"
      using u [of "nat (i * N + b)"] later [of _ _ i b] inb [of i b] ab True r(2)
        Suc.prems(1) by simp
    moreover have "full' ! nat (b * N + i) = f1 ! nat (b * N + i)"
      using u [of "nat (b * N + i)"] later [of _ _ b i] inb [of b i] ab True r(2)
        Suc.prems(1) by simp
    ultimately show ?thesis using rw [of b] ab True by simp
  next
    case False
    then show ?thesis using w [of a b] ab by simp
  qed
  have U: "full' ! q = full ! q"
    if q: "q < length full"
      and n: "\<forall>a b. i \<le> a \<and> a < b \<and> b < N \<longrightarrow>
                q \<noteq> nat (a * N + b) \<and> q \<noteq> nat (b * N + a)" for q
  proof -
    have "full' ! q = f1 ! q" using u [of q] q n r(2) by simp
    moreover have "f1 ! q = full ! q" using ru [of q] q n by simp
    ultimately show ?thesis by simp
  qed
  show ?case using step f r(2) W U by simp
qed

text \<open>
  What \<open>emds\<close> does in general on flattened storage with a result store of the right
  size: both mirrored positions of every pair hold the condensed entry of the pair,
  and a diagonal position \<open>(d, d)\<close> is zero if \<open>d * N + d\<close> is a square \<open>r * r\<close> with \<open>r < N\<close>
  and otherwise keeps what the resized buffer held there.
\<close>

lemma dense_view_result:
  assumes st: "emd_storage_m s = FlattenedSymmetric"
    and S: "nevA_m s = N" "nevB_m s = N" "num_emds_m s = (N * (N - 1)) sdiv 2"
      "int (length (emds_m s)) = num_emds_m s"
    and N: "0 \<le> N"
  shows "\<exists>full. emds False s = Inr (full, s\<lparr>full_emds_m := full\<rparr>)
     \<and> int (length full) = N * N
     \<and> (\<forall>a b. 0 \<le> a \<and> a < b \<and> b < N \<longrightarrow>
           full ! nat (a * N + b) = emds_m s ! nat (index_symmetric a b s)
         \<and> full ! nat (b * N + a) = emds_m s ! nat (index_symmetric a b s))
     \<and> (\<forall>d. 0 \<le> d \<and> d < N \<longrightarrow>
           full ! nat (d * N + d)
             = (if \<exists>r. 0 \<le> r \<and> r < N \<and> r * r = d * N + d then 0
                else resize (nat (N * N)) (full_emds_m s) ! nat (d * N + d)))"
proof -
  let ?f0 = "resize (nat (N * N)) (full_emds_m s)"
  have l0: "int (length ?f0) = N * N" using N by (simp add: length_resize)
  obtain f1 where z: "zero_diagonal N 0 ?f0 = Inr f1" "length f1 = length ?f0"
    and zq: "\<And>q. q < length ?f0 \<Longrightarrow>
          f1 ! q = (if \<exists>r. 0 \<le> r \<and> r < N \<and> q = nat (r * r) then 0 else ?f0 ! q)"
    using zero_diagonal_result [of 0 ?f0 N] l0 by auto
  have l1: "int (length f1) = N * N" using z(2) l0 by simp
  obtain f2 where f: "fill_rows s 0 f1 = Inr f2" "length f2 = length f1"
    and w: "\<And>a b. 0 \<le> a \<Longrightarrow> a < b \<Longrightarrow> b < N \<Longrightarrow>
           f2 ! nat (a * N + b) = emds_m s ! nat (index_symmetric a b s)
         \<and> f2 ! nat (b * N + a) = emds_m s ! nat (index_symmetric a b s)"
    and u: "\<And>q. q < length f1 \<Longrightarrow>
           (\<forall>a b. 0 \<le> a \<and> a < b \<and> b < N \<longrightarrow> q \<noteq> nat (a * N + b) \<and> q \<noteq> nat (b * N + a))
           \<Longrightarrow> f2 ! q = f1 ! q"
    using fill_rows_result [OF S, of 0 f1] l1 by auto
  have e: "emds False s = Inr (f2, s\<lparr>full_emds_m := f2\<rparr>)"
    using st S z(1) f(1) N zero_le_square [of N]
    by (simp add: emds_def Let_def resize_to_nonneg)
  have diag: "f2 ! nat (d * N + d)
      = (if \<exists>r. 0 \<le> r \<and> r < N \<and> r * r = d * N + d then 0 else ?f0 ! nat (d * N + d))"
    if d: "0 \<le> d \<and> d < N" for d
  proof -
    let ?q = "nat (d * N + d)"
    have b: "0 \<le> d * N + d" "d * N + d < N * N"
      using row_major_bound [of d N d] d by simp_all
    then have q: "?q < length f1" "?q < length ?f0" using l1 l0 by linarith+
    have "?q \<noteq> nat (a * N + b) \<and> ?q \<noteq> nat (b * N + a)"
      if "0 \<le> a \<and> a < b \<and> b < N" for a b
      using row_major_int_inj [of d N d a b] row_major_int_inj [of d N d b a] that d by auto
    then have "f2 ! ?q = f1 ! ?q" using u [of ?q] q(1) by blast
    moreover have "(\<exists>r. 0 \<le> r \<and> r < N \<and> ?q = nat (r * r))
        \<longleftrightarrow> (\<exists>r. 0 \<le> r \<and> r < N \<and> r * r = d * N + d)"
    proof -
      have "?q = nat (r * r) \<longleftrightarrow> r * r = d * N + d" for r
        using b(1) zero_le_square [of r] by linarith
      then show ?thesis by simp
    qed
    ultimately show ?thesis using zq [of ?q] q(2) by simp
  qed
  show ?thesis using e f(2) l1 w diag by auto
qed

text \<open>A value stored at the condensed offset of a pair reappears at both mirrored
  positions of the dense view, whatever the dense buffer held before.\<close>

lemma stored_value_reappears_off_diagonal:
  assumes st: "emd_storage_m s = FlattenedSymmetric"
    and S: "nevA_m s = N" "nevB_m s = N" "num_emds_m s = (N * (N - 1)) sdiv 2"
      "int (length (emds_m s)) = num_emds_m s"
    and ij: "0 \<le> i" "i < N" "0 \<le> j" "j < N" "i \<noteq> j"
  shows "\<exists>full s'. emds False (s\<lparr>emds_m := (emds_m s)[nat (index_symmetric i j s) := v]\<rparr>)
        = Inr (full, s')
     \<and> full ! nat (i * N + j) = v \<and> full ! nat (j * N + i) = v"
proof -
  let ?s = "s\<lparr>emds_m := (emds_m s)[nat (index_symmetric i j s) := v]\<rparr>"
  have ix: "index_symmetric a b (s\<lparr>emds_m := e\<rparr>) = index_symmetric a b s" for a b e
    by (simp add: index_symmetric_def)
  define a where "a = min i j"
  define b where "b = max i j"
  have ab: "0 \<le> a" "a < b" "b < N" using ij by (auto simp add: a_def b_def)
  have r: "0 \<le> index_symmetric b a s \<and> index_symmetric b a s < num_emds_m s"
    "index_symmetric a b s = index_symmetric b a s"
    using index_symmetric_range [of a b s] ab S(1,3) by simp_all
  have sym: "index_symmetric i j s = index_symmetric a b s"
    using r(2) ij(5) by (cases "i < j") (simp_all add: a_def b_def min_def max_def)
  have len: "nat (index_symmetric a b s) < length (emds_m s)"
    using r S(4) by linarith
  obtain full where e: "emds False ?s = Inr (full, ?s\<lparr>full_emds_m := full\<rparr>)"
    and w: "\<And>a b. 0 \<le> a \<and> a < b \<and> b < N \<Longrightarrow>
           full ! nat (a * N + b) = emds_m ?s ! nat (index_symmetric a b ?s)
         \<and> full ! nat (b * N + a) = emds_m ?s ! nat (index_symmetric a b ?s)"
    using dense_view_result [of ?s N] st S ij by auto
  have "full ! nat (a * N + b) = v \<and> full ! nat (b * N + a) = v"
    using w [of a b] ab len by (simp add: ix sym)
  then have "full ! nat (i * N + j) = v \<and> full ! nat (j * N + i) = v"
    using ij(5) by (cases "i < j") (auto simp add: a_def b_def min_def max_def)
  then show ?thesis using e by blast
qed

text \<open>The diagonal of the dense view is zero when the dense buffer is empty before the call, as
  \<open>init\<close> leaves it outside request mode: the zeros then come from \<^verbatim>\<open>resize\<close>.\<close>

lemma fresh_dense_view_has_zero_diagonal:
  assumes st: "emd_storage_m s = FlattenedSymmetric"
    and S: "nevA_m s = N" "nevB_m s = N" "num_emds_m s = (N * (N - 1)) sdiv 2"
      "int (length (emds_m s)) = num_emds_m s"
    and fresh: "full_emds_m s = []"
    and d: "0 \<le> d" "d < N"
  shows "\<exists>full s'. emds False s = Inr (full, s') \<and> full ! nat (d * N + d) = 0"
proof -
  have N: "0 \<le> N" using d by linarith
  have b: "0 \<le> d * N + d" "d * N + d < N * N"
    using row_major_bound [of d N d] d by simp_all
  then have "nat (d * N + d) < nat (N * N)" by linarith
  then have "resize (nat (N * N)) (full_emds_m s) ! nat (d * N + d) = 0"
    using fresh by (simp add: resize_def)
  then show ?thesis
    using dense_view_result [OF st S N] d by auto
qed

lemma stored_batch3_eq:
  "stored_batch3 = (loaded_self True False 3)
       \<lparr>emd_counter_m := 3,
        emd_objs_m := [compute keep_dists (fixed_cost_solver Success (5 / 2))
            (compute keep_dists (fixed_cost_solver Success (5 / 2))
              (compute keep_dists (fixed_cost_solver Success (5 / 2)) fresh_EMD
                 heavy_event light_event) light_event heavy_event) light_event light_event],
        error_messages_m := [],
        emds_m := [5, 5 / 2, 5]\<rparr>"
proof -
  let ?sv = "fixed_cost_solver Success (5 / 2)"
  let ?L = "loaded_self True False 3"
  let ?s2 = "?L\<lparr>emd_counter_m := 3\<rparr>"
  let ?o1 = "compute keep_dists ?sv fresh_EMD heavy_event light_event"
  let ?t1 = "?s2\<lparr>emd_objs_m := [?o1], error_messages_m := [], emds_m := [5, 0, 0]\<rparr>"
  let ?o2 = "compute keep_dists ?sv ?o1 light_event heavy_event"
  let ?t2 = "?s2\<lparr>emd_objs_m := [?o2], error_messages_m := [], emds_m := [5, 0, 5]\<rparr>"
  let ?o3 = "compute keep_dists ?sv ?o2 light_event light_event"
  let ?t3 = "?s2\<lparr>emd_objs_m := [?o3], error_messages_m := [], emds_m := [5, 5 / 2, 5]\<rparr>"
  have i0: "index_symmetric 1 0 ?s2 = 0" and i1: "index_symmetric 2 1 ?t1 = 2"
    and i2: "index_symmetric 2 0 ?t2 = 1"
    by (simp_all add: index_symmetric_def loaded_self_fields sdiv_nonneg)
  have d0: "dispatch keep_dists ?sv 0 ?s2 = Inr ?t1"
    by (subst dispatch_self_flattened [where i = 1 and j = 0])
      (simp_all add: loaded_self_fields symmetric_pair_3 three_events_nth i0
        compute_fixed_cost_any compute_keeps_norm fresh_EMD_norm example_event_weights)
  have d1: "dispatch keep_dists ?sv 1 ?t1 = Inr ?t2"
    by (subst dispatch_self_flattened [where i = 2 and j = 1])
      (simp_all add: loaded_self_fields symmetric_pair_3 three_events_nth i1
        compute_fixed_cost_any compute_keeps_norm fresh_EMD_norm example_event_weights)
  have d2: "dispatch keep_dists ?sv 2 ?t2 = Inr ?t3"
    by (subst dispatch_self_flattened [where i = 2 and j = 0])
      (simp_all add: loaded_self_fields symmetric_pair_3 three_events_nth i2
        compute_fixed_cost_any compute_keeps_norm fresh_EMD_norm example_event_weights)
  have rc: "run_chunk keep_dists ?sv 0 3 ?s2 = Inr ?t3"
    by (simp add: run_chunk_step run_chunk_done d0 d1 d2)
  have bl: "batch_loop keep_dists ?sv 3 0 ?L = Some (Inr ?t3)"
    apply (subst batch_loop.simps)
    apply (simp add: loaded_self_fields Let_def rc)
    apply (subst batch_loop.simps)
    apply (simp add: loaded_self_fields)
    done
  have pe: "resolved_print_every ?L = 3"
    by (simp add: resolved_print_every_def loaded_self_fields)
  have l: "load_events three_events (fresh_PairwiseEMD True False 3) = Inr ?L"
    unfolding loaded_self_def by (rule load_events_Inr)
  show ?thesis
    by (simp add: stored_batch3_def compute_events_def l pw_compute_def pe bl loaded_self_fields)
qed


lemma stored_batch3_fields:
  "request_mode_m stored_batch3 = False"
  "handler_m stored_batch3 = None"
  "emds_m stored_batch3 = [5, 5 / 2, 5]"
  "full_emds_m stored_batch3 = []"
  "emd_storage_m stored_batch3 = FlattenedSymmetric"
  "nevA_m stored_batch3 = 3"
  "nevB_m stored_batch3 = 3"
  "num_emds_m stored_batch3 = 3"
  "two_event_sets_m stored_batch3 = False"
  by (simp_all add: stored_batch3_eq loaded_self_fields)

lemma index_symmetric_batch3:
  "index_symmetric 0 1 stored_batch3 = 0" "index_symmetric 0 2 stored_batch3 = 1"
  "index_symmetric 1 2 stored_batch3 = 2"
  by (simp_all add: index_symmetric_def stored_batch3_fields sdiv_nonneg)

lemma dense_view_batch3:
  "emds False stored_batch3
     = Inr ([0, 5, 5 / 2, 5, 0, 5, 5 / 2, 5, 0],
            stored_batch3\<lparr>full_emds_m := [0, 5, 5 / 2, 5, 0, 5, 5 / 2, 5, 0]\<rparr>)"
proof -
  have z: "zero_diagonal 3 0 [0, 0, 0, 0, 0, 0, 0, 0, 0] = Inr [0, 0, 0, 0, 0, 0, 0, 0, 0]"
    by (simp add: zero_diagonal_step zero_diagonal_done vec_set_def)
  have r0: "fill_row stored_batch3 0 1 [0, 0, 0, 0, 0, 0, 0, 0, 0]
      = Inr [0, 5, 5 / 2, 5, 0, 0, 5 / 2, 0, 0]"
    by (simp add: fill_row_step fill_row_done stored_batch3_fields index_symmetric_batch3
        vec_get_def vec_set_def)
  have r1: "fill_row stored_batch3 1 2 [0, 5, 5 / 2, 5, 0, 0, 5 / 2, 0, 0]
      = Inr [0, 5, 5 / 2, 5, 0, 5, 5 / 2, 5, 0]"
    by (simp add: fill_row_step fill_row_done stored_batch3_fields index_symmetric_batch3
        vec_get_def vec_set_def)
  have r2: "fill_row stored_batch3 2 3 [0, 5, 5 / 2, 5, 0, 5, 5 / 2, 5, 0]
      = Inr [0, 5, 5 / 2, 5, 0, 5, 5 / 2, 5, 0]"
    by (simp add: fill_row_done stored_batch3_fields)
  have f: "fill_rows stored_batch3 0 [0, 0, 0, 0, 0, 0, 0, 0, 0]
      = Inr [0, 5, 5 / 2, 5, 0, 5, 5 / 2, 5, 0]"
    by (simp add: fill_rows_step fill_rows_done stored_batch3_fields r0 r1 r2)
  have rs: "resize 9 [] = [0, 0, 0, 0, 0, 0, 0, 0, 0]"
    by (simp add: resize_def numeral_eq_Suc)
  show ?thesis
    by (simp add: emds_def stored_batch3_fields Let_def resize_to_def rs z f)
qed

lemma viewed_batch3_fields:
  "request_mode_m viewed_batch3 = False"
  "handler_m viewed_batch3 = None"
  "emds_m viewed_batch3 = [5, 5 / 2, 5]"
  "full_emds_m viewed_batch3 = [0, 5, 5 / 2, 5, 0, 5, 5 / 2, 5, 0]"
  "emd_storage_m viewed_batch3 = FlattenedSymmetric"
  by (simp_all add: viewed_batch3_def dense_view_batch3 stored_batch3_fields)

lemma reloaded_fields:
  "request_mode_m reloaded_in_request_mode = True"
  "emds_m reloaded_in_request_mode = [5, 5 / 2, 5]"
  "full_emds_m reloaded_in_request_mode = [0, 5, 5 / 2, 5, 0, 5, 5 / 2, 5, 0]"
  "emd_storage_m reloaded_in_request_mode = FlattenedSymmetric"
  "nevA_m reloaded_in_request_mode = 2"
  "nevB_m reloaded_in_request_mode = 2"
  "num_emds_m reloaded_in_request_mode = 1"
  "events_m reloaded_in_request_mode = two_events"
  by (simp_all add: reloaded_in_request_mode_def load_events_def init_self_nonneg Let_def
      set_request_mode_def viewed_batch3_fields two_events_def sdiv_nonneg)

text \<open>
  C4 at the failing input. An engine with flattened storage computes a batch of three
  events and materialises the dense view; request mode is switched on and two events
  are loaded, where \<open>compute\<close> raises after \<open>init\<close> has run. The dense \<open>2 \<times> 2\<close> view
  that \<open>emds\<close> then returns is \<open>[0, 5, 5, 5]\<close>: its diagonal position \<open>(1, 1)\<close> holds 5, left
  over from the \<open>3 \<times> 3\<close> view, because the first loop of \<open>emds\<close> zeroes the index
  \<open>i * i\<close> and not \<open>i * nevB + i\<close>.
\<close>

theorem dense_view_diagonal_after_reload:
  "load_events two_events (set_request_mode True viewed_batch3) = Inr reloaded_in_request_mode
   \<and> pw_compute keep_dists (fixed_cost_solver Success (5 / 2)) reloaded_in_request_mode
       = Some (Inl (RuntimeError ''cannot compute pairwise EMDs in request mode''))
   \<and> emd_storage_m reloaded_in_request_mode = FlattenedSymmetric
   \<and> nevA_m reloaded_in_request_mode = 2 \<and> nevB_m reloaded_in_request_mode = 2
   \<and> emds False reloaded_in_request_mode
       = Inr ([0, 5, 5, 5], reloaded_in_request_mode\<lparr>full_emds_m := [0, 5, 5, 5]\<rparr>)
   \<and> fst (projr (emds False reloaded_in_request_mode)) ! (1 * 2 + 1) = 5"
proof -
  have l: "load_events two_events (set_request_mode True viewed_batch3)
      = Inr reloaded_in_request_mode"
    unfolding reloaded_in_request_mode_def by (rule load_events_Inr)
  have c: "pw_compute keep_dists (fixed_cost_solver Success (5 / 2)) reloaded_in_request_mode
       = Some (Inl (RuntimeError ''cannot compute pairwise EMDs in request mode''))"
    by (simp add: pw_compute_def reloaded_fields)
  have rs: "resize 4 [0, 5, 5 / 2, 5, 0, 5, 5 / 2, 5, 0] = [0, 5, 5 / 2, 5]"
    by (simp add: resize_def)
  have z: "zero_diagonal 2 0 [0, 5, 5 / 2, 5] = Inr [0, 0, 5 / 2, 5]"
    by (simp add: zero_diagonal_step zero_diagonal_done vec_set_def)
  have ix: "index_symmetric 0 1 reloaded_in_request_mode = 0"
    by (simp add: index_symmetric_def reloaded_fields sdiv_nonneg)
  have r0: "fill_row reloaded_in_request_mode 0 1 [0, 0, 5 / 2, 5] = Inr [0, 5, 5, 5]"
    by (simp add: fill_row_step fill_row_done reloaded_fields ix vec_get_def vec_set_def)
  have r1: "fill_row reloaded_in_request_mode 1 2 [0, 5, 5, 5] = Inr [0, 5, 5, 5]"
    by (simp add: fill_row_done reloaded_fields)
  have f: "fill_rows reloaded_in_request_mode 0 [0, 0, 5 / 2, 5] = Inr [0, 5, 5, 5]"
    by (simp add: fill_rows_step fill_rows_done reloaded_fields r0 r1)
  have e: "emds False reloaded_in_request_mode
       = Inr ([0, 5, 5, 5], reloaded_in_request_mode\<lparr>full_emds_m := [0, 5, 5, 5]\<rparr>)"
    by (simp add: emds_def reloaded_fields Let_def resize_to_def rs z f)
  show ?thesis by (simp add: l c e reloaded_fields)
qed

end
